theory Spec2Isabelle
  imports Complex_Main
begin

section \<open>GLM-130B evaluation and inference: sequence encoding, collation, scoring, splicing\<close>

text \<open>
  A shallow embedding of the tensor-construction code of \<^verbatim>\<open>examples/glm-130B\<close>:
  \<^verbatim>\<open>evaluation/dataset.py\<close> (the generation and multi-choice encoders, \<^verbatim>\<open>pad_batch\<close>
  and the multi-choice collator), \<^verbatim>\<open>evaluation/model.py\<close> (\<^verbatim>\<open>process_data\<close>,
  \<^verbatim>\<open>cond_log_prob\<close>) and \<^verbatim>\<open>inference.py\<close> (the position-id builders and the
  splicing step of \<^verbatim>\<open>process\<close>).

  One-dimensional numpy arrays and Python lists of token ids are \<open>int list\<close>; lengths and
  indices that the code builds from \<^verbatim>\<open>len\<close> and \<^verbatim>\<open>arange\<close> are \<open>nat\<close>; a
  two-dimensional array is the list of its rows. Every \<^verbatim>\<open>raise\<close> and failed
  \<^verbatim>\<open>assert\<close> is a value \<open>Inl e\<close> of the result type.
\<close>

subsection \<open>Errors and Python list primitives\<close>

datatype error = AssertionError | ValueError | IndexError | TypeError

datatype command = SOP | MASK | GMASK | EOP | EOS

text \<open>The tokenizer is an external collaborator; only \<^verbatim>\<open>get_command\<close> is used.\<close>

type_synonym tokenizer = "command \<Rightarrow> int"

definition get_command :: "tokenizer \<Rightarrow> command \<Rightarrow> int" where
  "get_command tk c = tk c"

text \<open>\<^verbatim>\<open>xs.index(x)\<close>: the first position of \<open>x\<close>; \<open>None\<close> stands for the ValueError.\<close>

fun index_of :: "'a list \<Rightarrow> 'a \<Rightarrow> nat option" where
  "index_of [] x = None"
| "index_of (y # ys) x = (if y = x then Some 0 else map_option Suc (index_of ys x))"

text \<open>
  A slice bound as Python normalises it on a sequence of length \<open>n\<close>: a negative bound
  counts from the end, and the result is clipped to \<open>0..n\<close>.
\<close>

definition slice_bound :: "nat \<Rightarrow> int \<Rightarrow> nat" where
  "slice_bound n i = nat (if i < 0 then max (i + int n) 0 else min i (int n))"

text \<open>\<^verbatim>\<open>xs[lo:hi]\<close>.\<close>

definition py_slice :: "'a list \<Rightarrow> int \<Rightarrow> int \<Rightarrow> 'a list" where
  "py_slice xs lo hi =
     (let a = slice_bound (length xs) lo; b = slice_bound (length xs) hi
      in take (b - a) (drop a xs))"

text \<open>\<^verbatim>\<open>xs[i]\<close> for a possibly negative \<open>i\<close>.\<close>

definition py_nth :: "'a list \<Rightarrow> int \<Rightarrow> error + 'a" where
  "py_nth xs i =
     (let n = int (length xs); j = (if i < 0 then i + n else i)
      in if 0 \<le> j \<and> j < n then Inr (xs ! nat j) else Inl IndexError)"

text \<open>\<^verbatim>\<open>xs[start:] = v\<close> on a numpy or torch vector (every entry from \<open>start\<close> on becomes \<open>v\<close>).\<close>

definition assign_from :: "'a list \<Rightarrow> int \<Rightarrow> 'a \<Rightarrow> 'a list" where
  "assign_from xs start v =
     (let a = slice_bound (length xs) start in take a xs @ replicate (length xs - a) v)"

text \<open>\<^verbatim>\<open>np.arange(lo, hi)\<close> for natural bounds.\<close>

definition arange :: "nat \<Rightarrow> nat \<Rightarrow> int list" where
  "arange lo hi = map int [lo..<hi]"

text \<open>\<^verbatim>\<open>np.zeros(k)\<close>: a negative dimension raises ValueError.\<close>

definition zeros :: "int \<Rightarrow> error + int list" where
  "zeros k = (if k < 0 then Inl ValueError else Inr (replicate (nat k) 0))"

subsection \<open>Matrices\<close>

type_synonym matrix = "int list list"

definition ncols :: "'a list list \<Rightarrow> nat" where
  "ncols m = (case m of [] \<Rightarrow> 0 | r # _ \<Rightarrow> length r)"

text \<open>\<^verbatim>\<open>np.ones((r, c))\<close> and \<^verbatim>\<open>np.tril(np.ones((n, n)))\<close>.\<close>

definition ones :: "nat \<Rightarrow> nat \<Rightarrow> matrix" where
  "ones r c = replicate r (replicate c 1)"

definition tril_ones :: "nat \<Rightarrow> matrix" where
  "tril_ones n = map (\<lambda>i. map (\<lambda>j. if j \<le> i then 1 else 0) [0..<n]) [0..<n]"

text \<open>\<^verbatim>\<open>m[:r, :c] = 1\<close> for bounds already normalised.\<close>

definition set_block :: "matrix \<Rightarrow> nat \<Rightarrow> nat \<Rightarrow> matrix" where
  "set_block m r c =
     map (\<lambda>i. map (\<lambda>j. if i < r \<and> j < c then 1 else m ! i ! j) [0..<length (m ! i)])
       [0..<length m]"

text \<open>
  \<^verbatim>\<open>m < 0.5\<close>, entry by entry: the Boolean tensor that is handed to the model.
\<close>

definition below_half :: "matrix \<Rightarrow> bool list list" where
  "below_half m = map (map (\<lambda>v. real_of_int v < 0.5)) m"

subsection \<open>Generation encoding (\<^verbatim>\<open>GenerationTaskDataset.build_generation_sample\<close>)\<close>

record gen_item =
  g_tokens :: "int list"
  g_position_ids :: "int list"
  g_attention_mask :: "bool list list"
  g_context_length :: nat

text \<open>The mask id the encoder works with: \<^verbatim>\<open>[gMASK]\<close> under task masking, else \<^verbatim>\<open>[MASK]\<close>.\<close>

definition gen_mask_id :: "tokenizer \<Rightarrow> bool \<Rightarrow> int" where
  "gen_mask_id tk use_task_mask =
     (if use_task_mask then get_command tk GMASK else get_command tk MASK)"

text \<open>
  Lines 88 to 100: the token sequence with its control tokens and the mask position.
  The two \<^verbatim>\<open>assert\<close>s of blank-filling mode come in the source's order.
\<close>

definition gen_layout :: "tokenizer \<Rightarrow> int list \<Rightarrow> bool \<Rightarrow> bool \<Rightarrow> error + (int list \<times> nat)" where
  "gen_layout tk text use_task_mask unidirectional =
     (let sop_id = get_command tk SOP; mask_id = gen_mask_id tk use_task_mask;
          blank_filling = (mask_id \<in> set text)
      in if blank_filling then
           if unidirectional then Inl AssertionError
           else if use_task_mask then Inl AssertionError
           else (case index_of text mask_id of
                   None \<Rightarrow> Inl ValueError
                 | Some mask_position \<Rightarrow> Inr (text @ [sop_id], mask_position))
         else
           if unidirectional then Inr ([mask_id, sop_id] @ text, length text)
           else Inr (text @ [mask_id, sop_id], length text))"

text \<open>Lines 102 to 104.\<close>

definition gen_position_ids :: "nat \<Rightarrow> bool \<Rightarrow> nat \<Rightarrow> nat \<Rightarrow> int list" where
  "gen_position_ids max_seq_length use_task_mask context_length mask_position =
     (let position_id = arange 0 max_seq_length
      in if \<not> use_task_mask
         then assign_from position_id (int context_length - 1) (int mask_position)
         else position_id)"

text \<open>Lines 106 to 108: the 0/1 visibility matrix, before the comparison with 0.5.\<close>

definition gen_visibility :: "nat \<Rightarrow> bool \<Rightarrow> nat \<Rightarrow> matrix" where
  "gen_visibility max_seq_length unidirectional context_length =
     (let attention_mask = tril_ones max_seq_length;
          b = slice_bound max_seq_length (int context_length - 1)
      in if \<not> unidirectional then set_block attention_mask b b else attention_mask)"

definition build_generation_sample ::
    "tokenizer \<Rightarrow> int list \<Rightarrow> nat \<Rightarrow> bool \<Rightarrow> bool \<Rightarrow> error + gen_item" where
  "build_generation_sample tk text max_seq_length use_task_mask unidirectional =
     (case gen_layout tk text use_task_mask unidirectional of
        Inl e \<Rightarrow> Inl e
      | Inr (token, mask_position) \<Rightarrow>
          (let context_length = length token;
               position_id = gen_position_ids max_seq_length use_task_mask context_length mask_position;
               attention_mask = gen_visibility max_seq_length unidirectional context_length
           in case zeros (int max_seq_length - int (length token)) of
                Inl e \<Rightarrow> Inl e
              | Inr pad \<Rightarrow>
                  Inr \<lparr>g_tokens = token @ pad,
                       g_position_ids = position_id,
                       g_attention_mask = below_half attention_mask,
                       g_context_length = context_length\<rparr>))"

subsection \<open>Multi-choice encoding (\<^verbatim>\<open>MultiChoiceTaskDataset\<close>)\<close>

text \<open>
  What \<^verbatim>\<open>item["choices"]\<close> can hold: the list of choices as given, or the result of
  \<^verbatim>\<open>np.array(choices).squeeze().tolist()\<close>, which is a number, a flat list or a nested
  list. \<^verbatim>\<open>item["choice_target_ids"]\<close> is one index array or the list of them.
\<close>

datatype choices_repr = ChoiceScalar int | ChoiceFlat "int list" | ChoiceNested "int list list"

datatype target_repr = SingleTarget "nat list" | MultiTarget "nat list list"

record mc_sample =
  s_token :: "int list"
  s_position_id :: "int list"
  s_attention_mask :: matrix
  s_choices :: choices_repr
  s_choice_target_ids :: target_repr

text \<open>\<^verbatim>\<open>scipy.linalg.block_diag\<close> of two-dimensional blocks.\<close>

definition block_diag2 :: "matrix \<Rightarrow> matrix \<Rightarrow> matrix" where
  "block_diag2 a b =
     map (\<lambda>r. r @ replicate (ncols b) 0) a @ map (\<lambda>r. replicate (ncols a) 0 @ r) b"

fun block_diag :: "matrix list \<Rightarrow> matrix" where
  "block_diag [] = []"
| "block_diag (a # as) = block_diag2 a (block_diag as)"

text \<open>The variables that the loop over the choices updates (lines 217 to 232).\<close>

record enc_state =
  st_token :: "int list"
  st_position_id :: "int list"
  st_choice_target_id :: "nat list list"
  st_attention_mask :: "matrix list"

text \<open>One iteration; \<^verbatim>\<open>choice[:-1]\<close> is \<open>butlast choice\<close> (empty for an empty choice).\<close>

definition choice_step :: "tokenizer \<Rightarrow> bool \<Rightarrow> bool \<Rightarrow> nat \<Rightarrow> enc_state \<Rightarrow> int list \<Rightarrow> enc_state" where
  "choice_step tk blank_filling unified_multitask_encoding mask_position st choice =
     \<lparr>st_token = st_token st @ [get_command tk SOP] @ butlast choice,
      st_position_id = st_position_id st @
        (if blank_filling \<or> \<not> unified_multitask_encoding
         then replicate (length choice) (int mask_position)
         else arange mask_position (mask_position + length choice)),
      st_choice_target_id = st_choice_target_id st @
        [[length (st_token st)..<length (st_token st) + length choice]],
      st_attention_mask = st_attention_mask st @ [tril_ones (length choice)]\<rparr>"

text \<open>The loop, with its \<^verbatim>\<open>break\<close> after the first choice in single-token mode.\<close>

fun choice_loop ::
    "tokenizer \<Rightarrow> bool \<Rightarrow> bool \<Rightarrow> nat \<Rightarrow> bool \<Rightarrow> int list list \<Rightarrow> enc_state \<Rightarrow> enc_state" where
  "choice_loop tk bf un mp is_single_token [] st = st"
| "choice_loop tk bf un mp is_single_token (choice # rest) st =
     (let st' = choice_step tk bf un mp st choice
      in if is_single_token then st' else choice_loop tk bf un mp is_single_token rest st')"

text \<open>
  \<^verbatim>\<open>np.array(choices, dtype=np.int64).squeeze().tolist()\<close>: a ragged list cannot become
  an int64 array (ValueError); axes of length one are dropped.
\<close>

definition squeeze_choices :: "int list list \<Rightarrow> error + choices_repr" where
  "squeeze_choices choices =
     (if choices = [] then Inr (ChoiceFlat [])
      else if \<not> list_all (\<lambda>c. length c = ncols choices) choices then Inl ValueError
      else if length choices = 1 \<and> ncols choices = 1 then Inr (ChoiceScalar (hd (hd choices)))
      else if length choices = 1 then Inr (ChoiceFlat (hd choices))
      else if ncols choices = 1 then Inr (ChoiceFlat (map hd choices))
      else Inr (ChoiceNested choices))"

text \<open>Lines 200 to 212: the context with its mask, its position ids and the mask position.\<close>

definition mc_prefix :: "tokenizer \<Rightarrow> int list \<Rightarrow> error + (int list \<times> int list \<times> nat)" where
  "mc_prefix tk text =
     (let mask_id = get_command tk MASK;
          token = text;
          position_id = arange 0 (length text);
          blank_filling = (mask_id \<in> set text)
      in if \<not> blank_filling then
           (let mask_position = length token
            in Inr (token @ [mask_id], position_id @ [int mask_position], mask_position))
         else (case index_of text mask_id of
                 None \<Rightarrow> Inl ValueError
               | Some mask_position \<Rightarrow> Inr (token, position_id, mask_position)))"

text \<open>
  Lines 234 and 235: the blocks composed, then \<^verbatim>\<open>attention_mask[: len(token), :division] = 1\<close>.
\<close>

definition mc_visibility :: "matrix list \<Rightarrow> nat \<Rightarrow> nat \<Rightarrow> matrix" where
  "mc_visibility blocks token_length division =
     (let attention_mask = block_diag blocks
      in set_block attention_mask
           (slice_bound (length attention_mask) (int token_length))
           (slice_bound (ncols attention_mask) (int division)))"

text \<open>
  The variable \<^verbatim>\<open>target\<close> of the source is built beside \<^verbatim>\<open>token\<close> and never read;
  it is left out.
\<close>

definition build_multiple_choice_sample ::
    "tokenizer \<Rightarrow> int list \<Rightarrow> int list list \<Rightarrow> bool \<Rightarrow> bool \<Rightarrow> error + mc_sample" where
  "build_multiple_choice_sample tk text choices is_single_token unified_multitask_encoding =
     (case mc_prefix tk text of
        Inl e \<Rightarrow> Inl e
      | Inr (token, position_id, mask_position) \<Rightarrow>
          (let blank_filling = (get_command tk MASK \<in> set text);
               division = length token;
               st = choice_loop tk blank_filling unified_multitask_encoding mask_position
                      is_single_token choices
                      \<lparr>st_token = token, st_position_id = position_id,
                       st_choice_target_id = [],
                       st_attention_mask = [ones (length token) (length token)]\<rparr>;
               attention_mask = mc_visibility (st_attention_mask st) (length (st_token st)) division
           in case (if is_single_token then squeeze_choices choices
                    else Inr (ChoiceNested choices)) of
                Inl e \<Rightarrow> Inl e
              | Inr choices' \<Rightarrow>
                  (case (if is_single_token
                         then (case st_choice_target_id st of
                                 [] \<Rightarrow> Inl IndexError
                               | t # _ \<Rightarrow> Inr (SingleTarget t))
                         else Inr (MultiTarget (st_choice_target_id st))) of
                     Inl e \<Rightarrow> Inl e
                   | Inr targets \<Rightarrow>
                       Inr \<lparr>s_token = st_token st,
                            s_position_id = st_position_id st,
                            s_attention_mask = attention_mask,
                            s_choices = choices',
                            s_choice_target_ids = targets\<rparr>)))"

subsection \<open>Loading a multi-choice dataset (\<^verbatim>\<open>process_single_item\<close>, \<^verbatim>\<open>__init__\<close>, \<^verbatim>\<open>__getitem__\<close>)\<close>

record mc_config =
  c_max_seq_length :: nat
  c_use_multitask_encoding :: bool

record raw_item =
  r_inputs :: "int list"
  r_choices :: "int list list"
  r_label :: int

record mc_item =
  i_text :: "int list"
  i_choices :: "int list list"
  i_label :: int

text \<open>
  \<^verbatim>\<open>process_single_item\<close> reads and writes \<^verbatim>\<open>self.is_single_token\<close>: the flag is an
  argument and a result.
\<close>

text \<open>Lines 170 to 173: the target length, which is \<open>1\<close> "for single token".\<close>

definition tgt_seq_length_of :: "int list list \<Rightarrow> nat" where
  "tgt_seq_length_of choices =
     (let tgt_seq_length = sum_list (map length choices)
      in if tgt_seq_length = length choices then 1 else tgt_seq_length)"

definition process_single_item ::
    "mc_config \<Rightarrow> tokenizer \<Rightarrow> bool \<Rightarrow> raw_item \<Rightarrow> error + (bool \<times> mc_item)" where
  "process_single_item config tk is_single_token item =
     (let text = r_inputs item; choices = r_choices item; label = r_label item;
          tgt_seq_length = tgt_seq_length_of choices
      in if \<not> tgt_seq_length < c_max_seq_length config then Inl AssertionError
         else
           (let text =
                  (if length text + tgt_seq_length + 2 > c_max_seq_length config
                   then (let text_length = int (c_max_seq_length config) - int tgt_seq_length - 2
                         in py_slice text (int (length text) - text_length) (int (length text)))
                   else text)
            in if get_command tk MASK \<in> set text \<and> c_use_multitask_encoding config
               then Inl AssertionError
               else Inr (if tgt_seq_length \<noteq> 1 then False else is_single_token,
                         \<lparr>i_text = text, i_choices = choices, i_label = label\<rparr>)))"

text \<open>The loop of \<^verbatim>\<open>EvaluationDataset.__init__\<close> over the lines of the file.\<close>

fun load_items ::
    "mc_config \<Rightarrow> tokenizer \<Rightarrow> bool \<Rightarrow> raw_item list \<Rightarrow> error + (bool \<times> mc_item list)" where
  "load_items config tk flag [] = Inr (flag, [])"
| "load_items config tk flag (item # rest) =
     (case process_single_item config tk flag item of
        Inl e \<Rightarrow> Inl e
      | Inr (flag', it) \<Rightarrow>
          (case load_items config tk flag' rest of
             Inl e \<Rightarrow> Inl e
           | Inr (flag'', its) \<Rightarrow> Inr (flag'', it # its)))"

text \<open>\<^verbatim>\<open>MultiChoiceTaskDataset.__init__\<close>: the flag starts as True.\<close>

definition init_dataset :: "mc_config \<Rightarrow> tokenizer \<Rightarrow> raw_item list \<Rightarrow> error + (bool \<times> mc_item list)" where
  "init_dataset config tk items = load_items config tk True items"

text \<open>\<^verbatim>\<open>__getitem__\<close>: the sample, and the label stored beside it.\<close>

definition getitem ::
    "mc_config \<Rightarrow> tokenizer \<Rightarrow> bool \<times> mc_item list \<Rightarrow> nat \<Rightarrow> error + (mc_sample \<times> int)" where
  "getitem config tk ds idx =
     (if idx < length (snd ds) then
        (let item = snd ds ! idx
         in case build_multiple_choice_sample tk (i_text item) (i_choices item) (fst ds)
                   (c_use_multitask_encoding config) of
              Inl e \<Rightarrow> Inl e
            | Inr sample \<Rightarrow> Inr (sample, i_label item))
      else Inl IndexError)"

subsection \<open>Collation (\<^verbatim>\<open>pad_batch\<close>, \<^verbatim>\<open>MultiChoiceTaskDataset.collate_fn\<close>)\<close>

text \<open>
  \<^verbatim>\<open>np.pad(m, pad_width=((0, k),), constant_values=0)\<close> on a two-dimensional array: \<open>k\<close>
  zeros after every axis.
\<close>

definition pad2 :: "nat \<Rightarrow> matrix \<Rightarrow> matrix" where
  "pad2 k m = map (\<lambda>r. r @ replicate k 0) m @ replicate k (replicate (ncols m + k) 0)"

text \<open>A negative pad width makes \<^verbatim>\<open>np.pad\<close> raise ValueError, as \<^verbatim>\<open>np.zeros\<close> does.\<close>

definition pad_batch ::
    "int list \<Rightarrow> int list \<Rightarrow> matrix \<Rightarrow> nat \<Rightarrow> error + (int list \<times> int list \<times> matrix)" where
  "pad_batch tokens position_ids attention_mask max_seq_length =
     (let k = int max_seq_length - int (length tokens)
      in if k < 0 then Inl ValueError
         else
           (let attention_mask = pad2 (nat k) attention_mask
            in case zeros k of
                 Inl e \<Rightarrow> Inl e
               | Inr zt \<Rightarrow>
                   (case zeros (int max_seq_length - int (length position_ids)) of
                      Inl e \<Rightarrow> Inl e
                    | Inr zp \<Rightarrow> Inr (tokens @ zt, position_ids @ zp, attention_mask))))"

record mc_batch =
  b_tokens :: "int list list"
  b_position_ids :: "int list list"
  b_attention_mask :: "bool list list list"
  b_choices :: "choices_repr list"
  b_choice_target_ids :: "target_repr list"
  b_is_single_token :: bool

text \<open>\<^verbatim>\<open>max\<close> of a non-empty sequence.\<close>

fun max_list :: "nat list \<Rightarrow> nat" where
  "max_list [] = 0"
| "max_list (x # xs) = fold max xs x"

text \<open>The loop of lines 148 to 156 as far as it can fail: the padded triples, in order.\<close>

fun pad_all :: "nat \<Rightarrow> mc_sample list \<Rightarrow> error + (int list \<times> int list \<times> matrix) list" where
  "pad_all n [] = Inr []"
| "pad_all n (sample # rest) =
     (case pad_batch (s_token sample) (s_position_id sample) (s_attention_mask sample) n of
        Inl e \<Rightarrow> Inl e
      | Inr t \<Rightarrow> (case pad_all n rest of Inl e \<Rightarrow> Inl e | Inr ts \<Rightarrow> Inr (t # ts)))"

text \<open>
  \<^verbatim>\<open>torch.tensor(np.array(ms))\<close> needs arrays of one shape: a ragged list is refused
  (ValueError in numpy 1.24 and later).
\<close>

definition same_shape :: "matrix list \<Rightarrow> bool" where
  "same_shape ms =
     (case ms of [] \<Rightarrow> True
      | m # _ \<Rightarrow> list_all (\<lambda>m'. length m' = length m \<and> ncols m' = ncols m) ms)"

text \<open>
  \<^verbatim>\<open>collate_fn\<close>; \<open>length_to_pad\<close> is its line 143 (\<^verbatim>\<open>max\<close> of an empty sequence
  raises ValueError) and \<open>is_single_token\<close> is \<^verbatim>\<open>self.is_single_token\<close>, the flag of the
  dataset. The token and position-id rows all have length \<open>length_to_pad\<close> when every
  \<^verbatim>\<open>pad_batch\<close> has returned, so only the attention masks can be ragged.
\<close>

definition length_to_pad :: "mc_sample list \<Rightarrow> nat" where
  "length_to_pad samples =
     (let TILE = 32
      in (max_list (map (\<lambda>spl. length (s_token spl)) samples) + TILE - 1) div TILE * TILE)"

definition collate_fn :: "bool \<Rightarrow> mc_sample list \<Rightarrow> error + mc_batch" where
  "collate_fn is_single_token samples =
     (if samples = [] then Inl ValueError
      else
        (let length_to_pad = length_to_pad samples
         in case pad_all length_to_pad samples of
              Inl e \<Rightarrow> Inl e
            | Inr padded \<Rightarrow>
                (let token_batch = map fst padded;
                     position_id_batch = map (\<lambda>t. fst (snd t)) padded;
                     attention_mask_batch = map (\<lambda>t. snd (snd t)) padded
                 in if \<not> same_shape attention_mask_batch then Inl ValueError
                    else Inr \<lparr>b_tokens = token_batch,
                              b_position_ids = position_id_batch,
                              b_attention_mask = map below_half attention_mask_batch,
                              b_choices = map s_choices samples,
                              b_choice_target_ids = map s_choice_target_ids samples,
                              b_is_single_token = is_single_token\<rparr>)))"

subsection \<open>Scoring (\<^verbatim>\<open>ModelForEvaluation.process_data\<close>, \<^verbatim>\<open>cond_log_prob\<close>)\<close>

text \<open>
  \<^verbatim>\<open>process_data\<close> moves the three tensors to the device; \<^verbatim>\<open>.long()\<close> and \<^verbatim>\<open>.bool()\<close>
  keep their values and \<^verbatim>\<open>unsqueeze(1)\<close> wraps each sample's mask in one more axis.
\<close>

definition process_data ::
    "mc_batch \<Rightarrow> int list list \<times> int list list \<times> bool list list list list" where
  "process_data batch =
     (b_tokens batch, b_position_ids batch, map (\<lambda>m. [m]) (b_attention_mask batch))"

text \<open>
  The network is an external collaborator: a function from the three tensors to logits
  \<open>[b, sq, vocab]\<close>. Floating point is idealised as \<open>real\<close>.
\<close>

type_synonym network =
  "int list list \<Rightarrow> int list list \<Rightarrow> bool list list list list \<Rightarrow> real list list list"

definition log_softmax :: "real list \<Rightarrow> real list" where
  "log_softmax xs = map (\<lambda>x. x - ln (sum_list (map exp xs))) xs"

text \<open>
  Index and result values of advanced indexing: a number, a vector or a matrix.
\<close>

datatype 'a nd = Sc 'a | Vec "'a list" | Mat "'a list list"

datatype ridx = RSc nat | RVec "nat list"

fun collect :: "(error + 'a) list \<Rightarrow> error + 'a list" where
  "collect [] = Inr []"
| "collect (Inl e # _) = Inl e"
| "collect (Inr x # rs) = (case collect rs of Inl e \<Rightarrow> Inl e | Inr xs \<Rightarrow> Inr (x # xs))"

text \<open>\<^verbatim>\<open>output[t, c]\<close> for one row and one column index.\<close>

definition lookup :: "real list list \<Rightarrow> nat \<Rightarrow> int \<Rightarrow> error + real" where
  "lookup output t c = (if t < length output then py_nth (output ! t) c else Inl IndexError)"

text \<open>
  Two index vectors are broadcast against each other: equal lengths pair up, a vector of
  length one is repeated, anything else is an IndexError (shape mismatch).
\<close>

definition gather_vec :: "real list list \<Rightarrow> nat list \<Rightarrow> int list \<Rightarrow> error + real list" where
  "gather_vec output ts cs =
     (if length ts = length cs then collect (map2 (lookup output) ts cs)
      else if length ts = 1 then collect (map (lookup output (hd ts)) cs)
      else if length cs = 1 then collect (map (\<lambda>t. lookup output t (hd cs)) ts)
      else Inl IndexError)"

text \<open>\<^verbatim>\<open>output[rows, cols]\<close>; a ragged nested list is not an index (ValueError).\<close>

definition gather :: "real list list \<Rightarrow> ridx \<Rightarrow> int nd \<Rightarrow> error + real nd" where
  "gather output rows cols =
     (case (rows, cols) of
        (RSc t, Sc c) \<Rightarrow> map_sum id Sc (lookup output t c)
      | (RSc t, Vec cs) \<Rightarrow> map_sum id Vec (collect (map (lookup output t) cs))
      | (RSc t, Mat css) \<Rightarrow>
          if \<not> list_all (\<lambda>r. length r = ncols css) css then Inl ValueError
          else map_sum id Mat (collect (map (\<lambda>cs. collect (map (lookup output t) cs)) css))
      | (RVec ts, Sc c) \<Rightarrow> map_sum id Vec (collect (map (\<lambda>t. lookup output t c) ts))
      | (RVec ts, Vec cs) \<Rightarrow> map_sum id Vec (gather_vec output ts cs)
      | (RVec ts, Mat css) \<Rightarrow>
          if \<not> list_all (\<lambda>r. length r = ncols css) css then Inl ValueError
          else map_sum id Mat (collect (map (gather_vec output ts) css)))"

text \<open>\<^verbatim>\<open>tmp.sum()\<close>.\<close>

fun nd_sum :: "real nd \<Rightarrow> real" where
  "nd_sum (Sc x) = x"
| "nd_sum (Vec xs) = sum_list xs"
| "nd_sum (Mat xss) = sum_list (map sum_list xss)"

text \<open>What iterating over \<^verbatim>\<open>choices\<close> and \<^verbatim>\<open>choice_target_ids\<close> yields; a number is not iterable.\<close>

fun choice_entries :: "choices_repr \<Rightarrow> error + int nd list" where
  "choice_entries (ChoiceScalar c) = Inl TypeError"
| "choice_entries (ChoiceFlat cs) = Inr (map Sc cs)"
| "choice_entries (ChoiceNested css) = Inr (map Vec css)"

fun target_entries :: "target_repr \<Rightarrow> ridx list" where
  "target_entries (SingleTarget ts) = map RSc ts"
| "target_entries (MultiTarget tss) = map RVec tss"

fun choices_index :: "choices_repr \<Rightarrow> int nd" where
  "choices_index (ChoiceScalar c) = Sc c"
| "choices_index (ChoiceFlat cs) = Vec cs"
| "choices_index (ChoiceNested css) = Mat css"

text \<open>\<^verbatim>\<open>choice_target_ids[0]\<close>.\<close>

fun first_target :: "target_repr \<Rightarrow> error + ridx" where
  "first_target (SingleTarget []) = Inl IndexError"
| "first_target (SingleTarget (t # _)) = Inr (RSc t)"
| "first_target (MultiTarget []) = Inl IndexError"
| "first_target (MultiTarget (ts # _)) = Inr (RVec ts)"

text \<open>Line 45: the entry that the single-token branch appends for one sample.\<close>

definition single_token_scores ::
    "real list list \<Rightarrow> choices_repr \<Rightarrow> target_repr \<Rightarrow> error + real nd" where
  "single_token_scores logits choices choice_target_ids =
     (case first_target choice_target_ids of
        Inl e \<Rightarrow> Inl e
      | Inr t \<Rightarrow> gather logits t (choices_index choices))"

text \<open>
  Lines 48 to 51: \<^verbatim>\<open>log_probs_single\<close> for one sample, the sum of the gathered
  log-probabilities of every choice.
\<close>

definition multi_token_scores ::
    "real list list \<Rightarrow> choices_repr \<Rightarrow> target_repr \<Rightarrow> error + real list" where
  "multi_token_scores output choices choice_target_ids =
     (case choice_entries choices of
        Inl e \<Rightarrow> Inl e
      | Inr cs \<Rightarrow>
          collect (map (\<lambda>(choice, choice_target_id).
                          map_sum id nd_sum (gather output choice_target_id choice))
                     (zip cs (target_entries choice_target_ids))))"

text \<open>
  \<^verbatim>\<open>cond_log_prob\<close>. In the multi-token branch \<^verbatim>\<open>log_probs_single\<close> is computed for
  every sample (so its errors surface) and then dropped: nothing is appended to
  \<^verbatim>\<open>log_probs\<close>, which is returned as it was created.
\<close>

definition cond_log_prob :: "network \<Rightarrow> mc_batch \<Rightarrow> error + real nd list" where
  "cond_log_prob model batch =
     (case process_data batch of
        (tokens, position_ids, attention_mask) \<Rightarrow>
          (let choices_batch = b_choices batch;
               choice_target_ids_batch = b_choice_target_ids batch;
               is_single_token = b_is_single_token batch;
               logits = model tokens position_ids attention_mask;
               logits_batch = map (map log_softmax) logits;
               log_probs = []
           in if is_single_token then
                map_sum id (\<lambda>entries. log_probs @ entries)
                  (collect (map (\<lambda>(logits, choices, choice_target_ids).
                                   single_token_scores logits choices choice_target_ids)
                              (zip logits_batch (zip choices_batch choice_target_ids_batch))))
              else
                map_sum id (\<lambda>dropped. log_probs)
                  (collect (map (\<lambda>(output, choices, choice_target_ids).
                                   multi_token_scores output choices choice_target_ids)
                              (zip logits_batch (zip choices_batch choice_target_ids_batch))))))"

subsection \<open>Inference: position ids and splicing (\<^verbatim>\<open>inference.py\<close>)\<close>

text \<open>
  \<^verbatim>\<open>get_masks_and_position_ids_gmask\<close> and \<^verbatim>\<open>get_masks_and_position_ids_mask\<close>; each
  \<^verbatim>\<open>unsqueeze\<close> wraps its tensor in one more axis.
\<close>

definition inference_visibility :: "nat \<Rightarrow> int \<Rightarrow> matrix" where
  "inference_visibility n context_length =
     set_block (tril_ones n) n (slice_bound n (context_length - 1))"

definition get_masks_and_position_ids_gmask ::
    "int list \<Rightarrow> int \<Rightarrow> int \<Rightarrow> int list list \<times> matrix list list \<times> int list list" where
  "get_masks_and_position_ids_gmask seq mask_position context_length =
     (let tokens = [seq];
          attention_mask = [[inference_visibility (length seq) context_length]];
          position_ids = arange 0 (length seq)
      in (tokens, attention_mask, [position_ids]))"

definition get_masks_and_position_ids_mask ::
    "int list \<Rightarrow> int \<Rightarrow> int \<Rightarrow> int list list \<times> matrix list list \<times> int list list" where
  "get_masks_and_position_ids_mask seq mask_position context_length =
     (let tokens = [seq];
          attention_mask = [[inference_visibility (length seq) context_length]];
          position_ids = arange 0 (length seq);
          position_ids = assign_from position_ids (context_length - 1) mask_position
      in (tokens, attention_mask, [position_ids]))"


definition end_tokens :: "tokenizer \<Rightarrow> int list" where
  "end_tokens tk = [get_command tk EOP, get_command tk EOS]"

text \<open>Lines 173 to 178: where the unfilled tail of an output begins.\<close>

definition unfinished_of :: "tokenizer \<Rightarrow> int list \<Rightarrow> error + int" where
  "unfinished_of tk output =
     (let unfinished = (case index_of output (- 1) of
                          Some i \<Rightarrow> int i
                        | None \<Rightarrow> int (length output))
      in case py_nth output (unfinished - 1) of
           Inl e \<Rightarrow> Inl e
         | Inr t \<Rightarrow> Inr (if t \<in> set (end_tokens tk) then unfinished - 1 else unfinished))"

text \<open>Lines 172 to 180: one output of the decoder filled back into the sequence.\<close>

definition splice :: "tokenizer \<Rightarrow> nat \<Rightarrow> int list \<Rightarrow> error + int list" where
  "splice tk mask_position output =
     (case unfinished_of tk output of
        Inl e \<Rightarrow> Inl e
      | Inr unfinished \<Rightarrow>
          (case index_of output (get_command tk SOP) of
             None \<Rightarrow> Inl ValueError
           | Some bog \<Rightarrow>
               Inr (py_slice output 0 (int mask_position)
                    @ py_slice output (int bog + 1) unfinished
                    @ py_slice output (int mask_position + 1) (int bog))))"

text \<open>The loop of lines 171 to 180 over \<^verbatim>\<open>output_list\<close>.\<close>

definition splice_all :: "tokenizer \<Rightarrow> nat \<Rightarrow> int list list \<Rightarrow> error + int list list" where
  "splice_all tk mask_position output_list = collect (map (splice tk mask_position) output_list)"

subsection \<open>A tokenizer for the worked examples\<close>

definition example_tokenizer :: tokenizer where
  "example_tokenizer c =
     (case c of SOP \<Rightarrow> 150004 | MASK \<Rightarrow> 150000 | GMASK \<Rightarrow> 150001 | EOP \<Rightarrow> 150005 | EOS \<Rightarrow> 150003)"


text \<open>A network for the worked examples: logits zero over a vocabulary of eight tokens.\<close>

definition uniform_model :: network where
  "uniform_model tokens position_ids attention_mask = map (map (\<lambda>t. replicate 8 0)) tokens"

text \<open>
  The shape the encoder gives a sample: position ids and a square visibility matrix of the
  length of the tokens.
\<close>

definition well_shaped :: "mc_sample \<Rightarrow> bool" where
  "well_shaped s =
     (length (s_position_id s) = length (s_token s)
      \<and> length (s_attention_mask s) = length (s_token s)
      \<and> list_all (\<lambda>r. length r = length (s_token s)) (s_attention_mask s))"

text \<open>The visibility matrix of a sample as \<^verbatim>\<open>pad_batch\<close> pads it inside a batch.\<close>

definition padded_mask :: "mc_sample list \<Rightarrow> mc_sample \<Rightarrow> matrix" where
  "padded_mask samples s =
     pad2 (length_to_pad samples - length (s_token s)) (s_attention_mask s)"

text \<open>Encoded samples for the worked examples.\<close>

definition example_sample :: "nat \<Rightarrow> mc_sample" where
  "example_sample n =
     projr (build_multiple_choice_sample example_tokenizer (replicate n 7) [[5], [9]] True False)"

definition example_multi_sample :: mc_sample where
  "example_multi_sample =
     projr (build_multiple_choice_sample example_tokenizer [1, 2] [[5, 6], [7]] False False)"

text \<open>A configuration for the worked examples.\<close>

definition example_config :: mc_config where
  "example_config = \<lparr>c_max_seq_length = 16, c_use_multitask_encoding = False\<rparr>"

subsection \<open>Notions for the statements about visibility matrices\<close>

text \<open>
  \<^verbatim>\<open>division = len(token)\<close> of line 214: the length of the shared context with its mask,
  where the choices begin.
\<close>

definition mc_division :: "tokenizer \<Rightarrow> int list \<Rightarrow> nat" where
  "mc_division tk text =
     (case mc_prefix tk text of
        Inl e \<Rightarrow> 0
      | Inr (token, position_id, mask_position) \<Rightarrow> length token)"

text \<open>An array of shape \<open>(n, n)\<close>, and a matrix of zeros and ones.\<close>

definition is_square :: "nat \<Rightarrow> 'a list list \<Rightarrow> bool" where
  "is_square n m = (length m = n \<and> list_all (\<lambda>r. length r = n) m)"

definition binary :: "matrix \<Rightarrow> bool" where
  "binary m = list_all (list_all (\<lambda>v. v = 0 \<or> v = 1)) m"

text \<open>
  The entry at row \<open>i\<close> and column \<open>j\<close> of the block-diagonal composition of lower
  triangles of the sizes \<open>ns\<close>, in closed form.
\<close>

fun tril_blocks_entry :: "nat list \<Rightarrow> nat \<Rightarrow> nat \<Rightarrow> int" where
  "tril_blocks_entry [] i j = 0"
| "tril_blocks_entry (n # ns) i j =
     (if i < n then (if j \<le> i then 1 else 0)
      else if j < n then 0 else tril_blocks_entry ns (i - n) (j - n))"

text \<open>Consecutive index ranges of the lengths \<open>ns\<close>, the first one starting at \<open>off\<close>.\<close>

fun spans :: "nat \<Rightarrow> nat list \<Rightarrow> nat list list" where
  "spans off [] = []"
| "spans off (n # ns) = [off..<off + n] # spans (off + n) ns"

text \<open>\<^verbatim>\<open>item["choice_target_ids"]\<close> as a list of index arrays, one per encoded choice.\<close>

fun target_list :: "target_repr \<Rightarrow> nat list list" where
  "target_list (SingleTarget t) = [t]"
| "target_list (MultiTarget ts) = ts"

text \<open>The choices that the loop visits: the first one only in single-token mode.\<close>

definition processed :: "bool \<Rightarrow> int list list \<Rightarrow> int list list" where
  "processed is_single_token choices = (if is_single_token then take 1 choices else choices)"

section \<open>Properties of the generation encoding\<close>

lemma index_of_None_iff: "index_of xs x = None \<longleftrightarrow> x \<notin> set xs"
  by (induction xs) auto

lemma index_of_Some_less: "index_of xs x = Some i \<Longrightarrow> i < length xs"
  by (induction xs arbitrary: i) (auto split: if_splits)

lemma index_of_Some_nth: "index_of xs x = Some i \<Longrightarrow> xs ! i = x"
  by (induction xs arbitrary: i) (auto split: if_splits)

lemma index_of_Some_first: "index_of xs x = Some i \<Longrightarrow> j < i \<Longrightarrow> xs ! j \<noteq> x"
proof (induction xs arbitrary: i j)
  case Nil
  then show ?case by simp
next
  case (Cons y ys)
  then show ?case
    by (cases j) (auto split: if_splits)
qed

lemma index_of_mem: "x \<in> set xs \<Longrightarrow> \<exists>i. index_of xs x = Some i"
  using index_of_None_iff [of xs x] by (cases "index_of xs x") auto

lemma slice_bound_int: "slice_bound n (int k) = min k n"
  by (simp add: slice_bound_def min_def)

lemma slice_bound_pred: "0 < k \<Longrightarrow> slice_bound n (int k - 1) = min (k - 1) n"
  by (auto simp: slice_bound_def min_def)

lemma length_arange: "length (arange lo hi) = hi - lo"
  by (simp add: arange_def)

lemma assign_from_arange:
  "0 < k \<Longrightarrow> assign_from (arange 0 n) (int k - 1) v =
     map (\<lambda>i. if k - 1 \<le> i then v else int i) [0..<n]"
  apply (simp add: assign_from_def arange_def Let_def slice_bound_pred)
  apply (rule nth_equalityI)
   apply (auto simp: nth_append min_def)
  done

lemma gen_layout_fresh:
  "gen_mask_id tk use_task_mask \<notin> set text \<Longrightarrow>
   gen_layout tk text use_task_mask unidirectional =
     Inr (if unidirectional
          then [gen_mask_id tk use_task_mask, get_command tk SOP] @ text
          else text @ [gen_mask_id tk use_task_mask, get_command tk SOP], length text)"
  by (simp add: gen_layout_def Let_def)

lemma gen_layout_blank:
  "gen_mask_id tk use_task_mask \<in> set text \<Longrightarrow>
   gen_layout tk text use_task_mask unidirectional =
     (if unidirectional \<or> use_task_mask then Inl AssertionError
      else case index_of text (get_command tk MASK) of
             None \<Rightarrow> Inl ValueError
           | Some p \<Rightarrow> Inr (text @ [get_command tk SOP], p))"
  by (auto simp: gen_layout_def Let_def gen_mask_id_def)

lemma zeros_fit: "a \<le> n \<Longrightarrow> zeros (int n - int a) = Inr (replicate (n - a) 0)"
  by (simp add: zeros_def nat_diff_distrib')


lemma build_generation_sample_fits:
  assumes "gen_layout tk text use_task_mask unidirectional = Inr (token, mask_position)"
    and "length token \<le> max_seq_length"
  shows "build_generation_sample tk text max_seq_length use_task_mask unidirectional =
     Inr \<lparr>g_tokens = token @ replicate (max_seq_length - length token) 0,
          g_position_ids =
            gen_position_ids max_seq_length use_task_mask (length token) mask_position,
          g_attention_mask = below_half (gen_visibility max_seq_length unidirectional (length token)),
          g_context_length = length token\<rparr>"
  using assms zeros_fit [of "length token" max_seq_length]
  by (simp add: build_generation_sample_def Let_def del: of_nat_diff)

lemma build_generation_sample_long:
  assumes "gen_layout tk text use_task_mask unidirectional = Inr (token, mask_position)"
    and "max_seq_length < length token"
  shows "build_generation_sample tk text max_seq_length use_task_mask unidirectional = Inl ValueError"
  using assms by (simp add: build_generation_sample_def Let_def zeros_def)

lemma build_generation_sample_error:
  "gen_layout tk text use_task_mask unidirectional = Inl e \<Longrightarrow>
   build_generation_sample tk text max_seq_length use_task_mask unidirectional = Inl e"
  by (simp add: build_generation_sample_def)

lemma gen_layout_nonempty:
  "gen_layout tk text use_task_mask unidirectional = Inr (token, mask_position) \<Longrightarrow> 0 < length token"
  by (auto simp: gen_layout_def Let_def split: if_splits option.splits)

lemma gen_layout_mask_position:
  "gen_layout tk text use_task_mask unidirectional = Inr (token, mask_position) \<Longrightarrow>
   mask_position = (case index_of text (gen_mask_id tk use_task_mask) of
                      Some p \<Rightarrow> p | None \<Rightarrow> length text)"
  by (auto simp: gen_layout_def Let_def index_of_None_iff [symmetric] split: if_splits option.splits)

lemma gen_position_ids_eq:
  "0 < context_length \<Longrightarrow>
   gen_position_ids max_seq_length use_task_mask context_length mask_position =
     map (\<lambda>i. if \<not> use_task_mask \<and> context_length - 1 \<le> i then int mask_position else int i)
       [0..<max_seq_length]"
  by (simp add: gen_position_ids_def Let_def assign_from_arange) (simp add: arange_def)

lemma assign_from_arange_int:
  "1 \<le> c \<Longrightarrow> assign_from (arange 0 n) (c - 1) v =
     map (\<lambda>i. if c - 1 \<le> int i then v else int i) [0..<n]"
  using assign_from_arange [of "nat c" n v]
  by (auto simp: nat_diff_distrib' le_nat_iff intro!: map_cong)

lemma example_tokenizer_simps:
  "get_command example_tokenizer SOP = 150004"
  "get_command example_tokenizer MASK = 150000"
  "get_command example_tokenizer GMASK = 150001"
  "get_command example_tokenizer EOP = 150005"
  "get_command example_tokenizer EOS = 150003"
  by (simp_all add: get_command_def example_tokenizer_def)


lemma blank_filling_success:
  assumes mem: "get_command tk MASK \<in> set text"
    and fits: "length text + 1 \<le> max_seq_length"
  shows "\<exists>item p. build_generation_sample tk text max_seq_length False False = Inr item
               \<and> index_of text (get_command tk MASK) = Some p
               \<and> p < length text \<and> text ! p = get_command tk MASK
               \<and> (\<forall>j<p. text ! j \<noteq> get_command tk MASK)
               \<and> g_tokens item = text @ [get_command tk SOP]
                                    @ replicate (max_seq_length - (length text + 1)) 0
               \<and> g_context_length item = length text + 1
               \<and> g_position_ids item =
                    map (\<lambda>i. if length text \<le> i then int p else int i) [0..<max_seq_length]"
proof -
  from index_of_mem [OF mem] obtain p where p: "index_of text (get_command tk MASK) = Some p" ..
  have lay: "gen_layout tk text False False = Inr (text @ [get_command tk SOP], p)"
    using mem p by (simp add: gen_layout_blank gen_mask_id_def)
  have len: "length (text @ [get_command tk SOP]) \<le> max_seq_length"
    using fits by simp
  define item where "item = \<lparr>g_tokens = (text @ [get_command tk SOP])
            @ replicate (max_seq_length - length (text @ [get_command tk SOP])) 0,
          g_position_ids =
            gen_position_ids max_seq_length False (length (text @ [get_command tk SOP])) p,
          g_attention_mask =
            below_half (gen_visibility max_seq_length False (length (text @ [get_command tk SOP]))),
          g_context_length = length (text @ [get_command tk SOP])\<rparr>"
  have ok: "build_generation_sample tk text max_seq_length False False = Inr item"
    unfolding item_def by (rule build_generation_sample_fits [OF lay len])
  have t: "g_tokens item = text @ [get_command tk SOP]
                                    @ replicate (max_seq_length - (length text + 1)) 0"
    by (simp add: item_def)
  have c: "g_context_length item = length text + 1"
    by (simp add: item_def)
  have "g_position_ids item = gen_position_ids max_seq_length False (length text + 1) p"
    by (simp add: item_def)
  also have "\<dots> = map (\<lambda>i. if \<not> False \<and> (length text + 1) - 1 \<le> i then int p else int i)
       [0..<max_seq_length]"
    by (rule gen_position_ids_eq) simp
  finally have q: "g_position_ids item =
      map (\<lambda>i. if length text \<le> i then int p else int i) [0..<max_seq_length]"
    by simp
  have f: "\<forall>j<p. text ! j \<noteq> get_command tk MASK"
    using index_of_Some_first [OF p] by blast
  show ?thesis
  proof (intro exI conjI)
    show "build_generation_sample tk text max_seq_length False False = Inr item" by (rule ok)
    show "index_of text (get_command tk MASK) = Some p" by (rule p)
    show "p < length text" by (rule index_of_Some_less [OF p])
    show "text ! p = get_command tk MASK" by (rule index_of_Some_nth [OF p])
    show "\<forall>j<p. text ! j \<noteq> get_command tk MASK" by (rule f)
    show "g_tokens item = text @ [get_command tk SOP]
                                    @ replicate (max_seq_length - (length text + 1)) 0" by (rule t)
    show "g_context_length item = length text + 1" by (rule c)
    show "g_position_ids item =
      map (\<lambda>i. if length text \<le> i then int p else int i) [0..<max_seq_length]" by (rule q)
  qed
qed

text \<open>
  Claim C5. For a token sequence that does not contain the mask id the encoder works with,
  and that fits (\<open>length text + 2 \<le> max_seq_length\<close>, else \<^verbatim>\<open>np.zeros\<close> raises), the
  bidirectional encoding appends the mask and then the start-of-prediction token, the
  unidirectional encoding puts the pair in front, and both have
  \<open>context_length = length text + 2\<close>; the tokens are padded with zeros to
  \<open>max_seq_length\<close>.
\<close>

theorem generation_synthesized_mask:
  assumes "gen_mask_id tk use_task_mask \<notin> set text"
    and "length text + 2 \<le> max_seq_length"
  shows "(\<exists>item. build_generation_sample tk text max_seq_length use_task_mask False = Inr item
            \<and> g_context_length item = length text + 2
            \<and> g_tokens item = text @ [gen_mask_id tk use_task_mask, get_command tk SOP]
                                 @ replicate (max_seq_length - (length text + 2)) 0)
       \<and> (\<exists>item. build_generation_sample tk text max_seq_length use_task_mask True = Inr item
            \<and> g_context_length item = length text + 2
            \<and> g_tokens item = [gen_mask_id tk use_task_mask, get_command tk SOP] @ text
                                 @ replicate (max_seq_length - (length text + 2)) 0)"
proof -
  have a: "gen_layout tk text use_task_mask False =
      Inr (text @ [gen_mask_id tk use_task_mask, get_command tk SOP], length text)"
    using assms(1) by (simp add: gen_layout_fresh)
  have b: "gen_layout tk text use_task_mask True =
      Inr ([gen_mask_id tk use_task_mask, get_command tk SOP] @ text, length text)"
    using assms(1) by (simp add: gen_layout_fresh)
  show ?thesis
    using build_generation_sample_fits [OF a, of max_seq_length]
      build_generation_sample_fits [OF b, of max_seq_length] assms(2)
    by simp
qed

theorem generation_synthesized_mask_witness:
  "gen_mask_id example_tokenizer False \<notin> set [11, 12, 13]
   \<and> length [11, 12, 13 :: int] + 2 \<le> 8
   \<and> build_generation_sample example_tokenizer [11, 12, 13] 8 False False =
       Inr \<lparr>g_tokens = [11, 12, 13, 150000, 150004, 0, 0, 0],
            g_position_ids = [0, 1, 2, 3, 3, 3, 3, 3],
            g_attention_mask = below_half (gen_visibility 8 False 5),
            g_context_length = 5\<rparr>
   \<and> (\<exists>item. build_generation_sample example_tokenizer [11, 12, 13] 8 False True = Inr item
        \<and> g_context_length item = length [11, 12, 13 :: int] + 2
        \<and> g_tokens item = [gen_mask_id example_tokenizer False, get_command example_tokenizer SOP]
             @ [11, 12, 13] @ replicate (8 - (length [11, 12, 13 :: int] + 2)) 0)"
proof -
  have h1: "gen_mask_id example_tokenizer False \<notin> set [11, 12, 13]"
    by code_simp
  have h2: "length [11, 12, 13 :: int] + 2 \<le> 8"
    by simp
  have e: "build_generation_sample example_tokenizer [11, 12, 13] 8 False False =
       Inr \<lparr>g_tokens = [11, 12, 13, 150000, 150004, 0, 0, 0],
            g_position_ids = [0, 1, 2, 3, 3, 3, 3, 3],
            g_attention_mask = below_half (gen_visibility 8 False 5),
            g_context_length = 5\<rparr>"
    by code_simp
  show ?thesis
    by (intro conjI h1 h2 e generation_synthesized_mask [OF h1 h2, THEN conjunct2])
qed

text \<open>
  Claim C6. The position ids of every generation encoding are \<open>0, 1, ..., max_seq_length - 1\<close>,
  except that without task masking every entry at index \<open>context_length - 1\<close> or later
  holds the mask position (the index of the first mask, or the length of the text when
  the mask was synthesised). \<^verbatim>\<open>get_masks_and_position_ids_mask\<close> of \<^verbatim>\<open>inference.py\<close>
  builds the same sequence over the length of its input for a context length of at
  least one.
\<close>

theorem position_ids_anchor:
  "(build_generation_sample tk text max_seq_length use_task_mask unidirectional = Inr item \<longrightarrow>
      g_position_ids item =
        map (\<lambda>i. if \<not> use_task_mask \<and> g_context_length item - 1 \<le> i
                 then int (case index_of text (gen_mask_id tk use_task_mask) of
                             Some p \<Rightarrow> p | None \<Rightarrow> length text)
                 else int i) [0..<max_seq_length])
   \<and> (1 \<le> context_length \<longrightarrow>
        snd (snd (get_masks_and_position_ids_mask seq mask_position context_length)) =
          [map (\<lambda>i. if context_length - 1 \<le> int i then mask_position else int i)
             [0..<length seq]])"
proof (intro conjI impI)
  assume ok: "build_generation_sample tk text max_seq_length use_task_mask unidirectional = Inr item"
  then obtain token mp where lay: "gen_layout tk text use_task_mask unidirectional = Inr (token, mp)"
    by (cases "gen_layout tk text use_task_mask unidirectional")
      (auto simp: build_generation_sample_def)
  have fits: "length token \<le> max_seq_length"
    using ok build_generation_sample_long [OF lay, of max_seq_length] by (cases "length token \<le> max_seq_length") auto
  show "g_position_ids item =
        map (\<lambda>i. if \<not> use_task_mask \<and> g_context_length item - 1 \<le> i
                 then int (case index_of text (gen_mask_id tk use_task_mask) of
                             Some p \<Rightarrow> p | None \<Rightarrow> length text)
                 else int i) [0..<max_seq_length]"
    using ok build_generation_sample_fits [OF lay fits] gen_layout_nonempty [OF lay]
      gen_layout_mask_position [OF lay]
    by (auto simp: gen_position_ids_eq)
next
  assume "1 \<le> context_length"
  then show "snd (snd (get_masks_and_position_ids_mask seq mask_position context_length)) =
          [map (\<lambda>i. if context_length - 1 \<le> int i then mask_position else int i)
             [0..<length seq]]"
    by (simp add: get_masks_and_position_ids_mask_def Let_def assign_from_arange_int)
qed

theorem position_ids_anchor_witness:
  "build_generation_sample example_tokenizer [11, 12, 13] 8 False False =
       Inr \<lparr>g_tokens = [11, 12, 13, 150000, 150004, 0, 0, 0],
            g_position_ids = [0, 1, 2, 3, 3, 3, 3, 3],
            g_attention_mask = below_half (gen_visibility 8 False 5),
            g_context_length = 5\<rparr>
   \<and> g_position_ids \<lparr>g_tokens = [11, 12, 13, 150000, 150004, 0, 0, 0],
            g_position_ids = [0, 1, 2, 3, 3, 3, 3, 3],
            g_attention_mask = below_half (gen_visibility 8 False 5),
            g_context_length = 5\<rparr> =
        map (\<lambda>i. if \<not> False \<and> g_context_length \<lparr>g_tokens = [11, 12, 13, 150000, 150004, 0, 0, 0],
            g_position_ids = [0, 1, 2, 3, 3, 3, 3, 3],
            g_attention_mask = below_half (gen_visibility 8 False 5),
            g_context_length = 5\<rparr> - 1 \<le> i
                 then int (case index_of [11, 12, 13] (gen_mask_id example_tokenizer False) of
                             Some p \<Rightarrow> p | None \<Rightarrow> length [11, 12, 13 :: int])
                 else int i) [0..<8]
   \<and> (1 :: int) \<le> 4
   \<and> snd (snd (get_masks_and_position_ids_mask [11, 150000, 13, 150004, - 1, - 1] 1 4))
       = [[0, 1, 2, 1, 1, 1]]"
proof -
  let ?item = "\<lparr>g_tokens = [11, 12, 13, 150000, 150004, 0, 0, 0],
            g_position_ids = [0, 1, 2, 3, 3, 3, 3, 3],
            g_attention_mask = below_half (gen_visibility 8 False 5),
            g_context_length = 5\<rparr>"
  have e: "build_generation_sample example_tokenizer [11, 12, 13] 8 False False = Inr ?item"
    by code_simp
  have p: "g_position_ids ?item =
        map (\<lambda>i. if \<not> False \<and> g_context_length ?item - 1 \<le> i
                 then int (case index_of [11, 12, 13] (gen_mask_id example_tokenizer False) of
                             Some p \<Rightarrow> p | None \<Rightarrow> length [11, 12, 13 :: int])
                 else int i) [0..<8]"
    using position_ids_anchor [of example_tokenizer "[11, 12, 13]" 8 False False ?item] e
    by blast
  have q: "snd (snd (get_masks_and_position_ids_mask [11, 150000, 13, 150004, - 1, - 1] 1 4))
       = [[0, 1, 2, 1, 1, 1]]"
    by code_simp
  have o: "(1 :: int) \<le> 4"
    by simp
  show ?thesis
    by (intro conjI e p o q)
qed

text \<open>
  Claim C8. In blank-filling mode (the mask id the encoder works with occurs in the text)
  the call fails with the error of a failed \<^verbatim>\<open>assert\<close> whenever \<open>unidirectional\<close> or
  \<open>use_task_mask\<close> is set, whatever the length bound; the encoder is a pure function and
  no network is called. With both unset, and the text with one more token fitting in
  \<open>max_seq_length\<close>, it succeeds: the start-of-prediction token is appended after the
  text, and the mask position (the value written into the position ids from the
  start-of-prediction token on) is the index of the first mask of the text.
\<close>

theorem blank_filling_config_conflict:
  assumes "gen_mask_id tk use_task_mask \<in> set text"
  shows "(unidirectional \<or> use_task_mask \<longrightarrow>
            build_generation_sample tk text max_seq_length use_task_mask unidirectional
              = Inl AssertionError)
       \<and> (\<not> unidirectional \<and> \<not> use_task_mask \<and> length text + 1 \<le> max_seq_length \<longrightarrow>
            (\<exists>item p. build_generation_sample tk text max_seq_length use_task_mask unidirectional
                        = Inr item
               \<and> index_of text (get_command tk MASK) = Some p
               \<and> p < length text \<and> text ! p = get_command tk MASK
               \<and> (\<forall>j<p. text ! j \<noteq> get_command tk MASK)
               \<and> g_tokens item = text @ [get_command tk SOP]
                                    @ replicate (max_seq_length - (length text + 1)) 0
               \<and> g_context_length item = length text + 1
               \<and> g_position_ids item =
                    map (\<lambda>i. if length text \<le> i then int p else int i) [0..<max_seq_length]))"
proof (intro conjI impI)
  assume "unidirectional \<or> use_task_mask"
  then have "gen_layout tk text use_task_mask unidirectional = Inl AssertionError"
    using assms by (simp add: gen_layout_blank)
  then show "build_generation_sample tk text max_seq_length use_task_mask unidirectional
      = Inl AssertionError"
    by (rule build_generation_sample_error)
next
  assume h: "\<not> unidirectional \<and> \<not> use_task_mask \<and> length text + 1 \<le> max_seq_length"
  then have mem: "get_command tk MASK \<in> set text"
    using assms by (simp add: gen_mask_id_def)
  from h have u: "unidirectional = False" "use_task_mask = False" by simp_all
  from h have fits: "length text + 1 \<le> max_seq_length" by simp
  show "\<exists>item p. build_generation_sample tk text max_seq_length use_task_mask unidirectional
                        = Inr item
               \<and> index_of text (get_command tk MASK) = Some p
               \<and> p < length text \<and> text ! p = get_command tk MASK
               \<and> (\<forall>j<p. text ! j \<noteq> get_command tk MASK)
               \<and> g_tokens item = text @ [get_command tk SOP]
                                    @ replicate (max_seq_length - (length text + 1)) 0
               \<and> g_context_length item = length text + 1
               \<and> g_position_ids item =
                    map (\<lambda>i. if length text \<le> i then int p else int i) [0..<max_seq_length]"
    unfolding u by (rule blank_filling_success [OF mem fits])
qed

theorem blank_filling_config_conflict_witness:
  "gen_mask_id example_tokenizer False \<in> set [11, 150000, 13]
   \<and> build_generation_sample example_tokenizer [11, 150000, 13] 8 False True = Inl AssertionError
   \<and> gen_mask_id example_tokenizer True \<in> set [11, 150001, 13]
   \<and> build_generation_sample example_tokenizer [11, 150001, 13] 8 True False = Inl AssertionError
   \<and> build_generation_sample example_tokenizer [11, 150000, 13] 8 False False =
       Inr \<lparr>g_tokens = [11, 150000, 13, 150004, 0, 0, 0, 0],
            g_position_ids = [0, 1, 2, 1, 1, 1, 1, 1],
            g_attention_mask = below_half (gen_visibility 8 False 4),
            g_context_length = 4\<rparr>
   \<and> index_of [11, 150000, 13] (get_command example_tokenizer MASK) = Some 1"
proof -
  have h1: "gen_mask_id example_tokenizer False \<in> set [11, 150000, 13]"
    by code_simp
  have h2: "gen_mask_id example_tokenizer True \<in> set [11, 150001, 13]"
    by code_simp
  have a: "build_generation_sample example_tokenizer [11, 150000, 13] 8 False True
             = Inl AssertionError"
    using blank_filling_config_conflict [OF h1, of True 8] by simp
  have b: "build_generation_sample example_tokenizer [11, 150001, 13] 8 True False
             = Inl AssertionError"
    using blank_filling_config_conflict [OF h2, of False 8] by simp
  have c: "build_generation_sample example_tokenizer [11, 150000, 13] 8 False False =
       Inr \<lparr>g_tokens = [11, 150000, 13, 150004, 0, 0, 0, 0],
            g_position_ids = [0, 1, 2, 1, 1, 1, 1, 1],
            g_attention_mask = below_half (gen_visibility 8 False 4),
            g_context_length = 4\<rparr>"
    by code_simp
  have d: "index_of [11, 150000, 13] (get_command example_tokenizer MASK) = Some 1"
    by code_simp
  show ?thesis
    by (intro conjI h1 h2 a b c d)
qed

section \<open>The splicing step of the mask-filling driver\<close>

lemma py_slice_nat:
  "py_slice xs (int a) (int b) =
     take (min b (length xs) - min a (length xs)) (drop (min a (length xs)) xs)"
  by (simp add: py_slice_def slice_bound_int Let_def)

lemma py_slice_nat1:
  "py_slice xs (int a + 1) (int b) =
     take (min b (length xs) - min (Suc a) (length xs)) (drop (min (Suc a) (length xs)) xs)"
  using py_slice_nat [of xs "Suc a" b] by (simp add: add.commute)











section \<open>Scoring in multi-token mode\<close>

lemma multi_token_sample_example: "build_multiple_choice_sample example_tokenizer [1, 2] [[5, 6], [7]] False False =
  Inr \<lparr>s_token = [1, 2, 150000, 150004, 5, 150004],
       s_position_id = [0, 1, 2, 2, 2, 2],
       s_attention_mask =
          [[1, 1, 1, 0, 0, 0], [1, 1, 1, 0, 0, 0], [1, 1, 1, 0, 0, 0],
           [1, 1, 1, 1, 0, 0], [1, 1, 1, 1, 1, 0], [1, 1, 1, 0, 0, 1]],
       s_choices = ChoiceNested [[5, 6], [7]],
       s_choice_target_ids = MultiTarget [[3, 4], [5]]\<rparr>"
  by code_simp

lemma cond_log_prob_multi_token:
  assumes "\<not> b_is_single_token batch"
  shows "cond_log_prob model batch =
     map_sum id (\<lambda>dropped. [])
       (collect (map (\<lambda>(out, choices, choice_target_ids).
                        multi_token_scores out choices choice_target_ids)
                   (zip (map (map log_softmax)
                           (model (b_tokens batch) (b_position_ids batch)
                              (map (\<lambda>m. [m]) (b_attention_mask batch))))
                      (zip (b_choices batch) (b_choice_target_ids batch)))))"
  using assms by (simp add: cond_log_prob_def process_data_def Let_def)

lemma lookup_uniform:
  "t < length ts \<Longrightarrow> 0 \<le> c \<Longrightarrow> c < 8 \<Longrightarrow>
   lookup (map log_softmax (map (\<lambda>t. replicate 8 0) ts)) t c
     = Inr (log_softmax (replicate 8 0) ! nat c)"
  by (simp add: lookup_def py_nth_def Let_def log_softmax_def)

lemma multi_token_scores_example:
  assumes "\<And>t c. t < 6 \<Longrightarrow> 0 \<le> c \<Longrightarrow> c < 8 \<Longrightarrow> lookup out t c = Inr (f c)"
  shows "multi_token_scores out (ChoiceNested [[5, 6], [7]]) (MultiTarget [[3, 4], [5]])
           = Inr [f 5 + f 6, f 7]"
  using assms by (simp add: multi_token_scores_def gather_def gather_vec_def)

text \<open>
  Claim C1 says that in multi-token mode \<^verbatim>\<open>cond_log_prob\<close> returns one list of scores
  per sample. The code computes the summed log-probabilities of every choice
  (\<open>multi_token_scores\<close>) and never appends them: for the batch collated from the
  encoding of the context \<open>[1, 2]\<close> with the choices \<open>[5, 6]\<close> and \<open>[7]\<close>, under a
  network with uniform logits over eight tokens, the batch holds one sample and the
  result is the empty list.
\<close>

theorem cond_log_prob_multi_token_drops_scores:
  "cond_log_prob uniform_model
     (projr (collate_fn False
        [projr (build_multiple_choice_sample example_tokenizer [1, 2] [[5, 6], [7]] False False)]))
   = Inr []
   \<and> length (b_tokens (projr (collate_fn False
        [projr (build_multiple_choice_sample example_tokenizer [1, 2] [[5, 6], [7]] False False)])))
       = 1"
proof -
  define batch where "batch = projr (collate_fn False
        [projr (build_multiple_choice_sample example_tokenizer [1, 2] [[5, 6], [7]] False False)])"
  define ts :: "int list" where "ts = [1, 2, 150000, 150004, 5, 150004] @ replicate 26 0"
  define out where "out = map log_softmax (map (\<lambda>t. replicate 8 0) ts)"
  have f: "\<not> b_is_single_token batch"
    unfolding batch_def by code_simp
  have t: "b_tokens batch = [ts]"
    unfolding batch_def ts_def by code_simp
  have c: "b_choices batch = [ChoiceNested [[5, 6], [7]]]"
    unfolding batch_def by code_simp
  have g: "b_choice_target_ids batch = [MultiTarget [[3, 4], [5]]]"
    unfolding batch_def by code_simp
  have m: "map (map log_softmax)
             (uniform_model (b_tokens batch) (b_position_ids batch)
                (map (\<lambda>m. [m]) (b_attention_mask batch)))
           = [out]"
    by (simp add: uniform_model_def t out_def)
  have len: "length ts = 32"
    by (simp add: ts_def)
  have lk: "\<And>t c. t < 6 \<Longrightarrow> 0 \<le> c \<Longrightarrow> c < 8 \<Longrightarrow>
      lookup out t c = Inr (log_softmax (replicate 8 0) ! nat c)"
    unfolding out_def by (rule lookup_uniform) (simp_all add: len)
  have s: "multi_token_scores out (ChoiceNested [[5, 6], [7]]) (MultiTarget [[3, 4], [5]])
           = Inr [log_softmax (replicate 8 0) ! nat 5 + log_softmax (replicate 8 0) ! nat 6,
                  log_softmax (replicate 8 0) ! nat 7]"
    by (rule multi_token_scores_example [OF lk])
  have "cond_log_prob uniform_model batch = Inr []"
    by (simp add: cond_log_prob_multi_token [OF f] m c g s)
  moreover have "length (b_tokens batch) = 1"
    by (simp add: t)
  ultimately show ?thesis
    unfolding batch_def by simp
qed

section \<open>Collation\<close>

lemma fold_max_ge: "a \<le> fold max xs (a :: nat)"
proof (induction xs arbitrary: a)
  case Nil
  then show ?case by simp
next
  case (Cons x xs)
  have "a \<le> max x a" by simp
  also have "\<dots> \<le> fold max xs (max x a)" by (rule Cons.IH)
  finally show ?case by simp
qed

lemma fold_max_mem: "x \<in> set xs \<Longrightarrow> x \<le> fold max xs (a :: nat)"
proof (induction xs arbitrary: a)
  case Nil
  then show ?case by simp
next
  case (Cons y ys)
  show ?case
  proof (cases "x = y")
    case True
    have "x \<le> max y a" using True by simp
    also have "\<dots> \<le> fold max ys (max y a)" by (rule fold_max_ge)
    finally show ?thesis by simp
  next
    case False
    then have "x \<in> set ys" using Cons.prems by simp
    then show ?thesis using Cons.IH by simp
  qed
qed

lemma max_list_ge: "x \<in> set xs \<Longrightarrow> x \<le> max_list xs"
  by (cases xs) (auto simp: fold_max_ge fold_max_mem)

lemma length_to_pad_bounds:
  "32 dvd length_to_pad samples"
  "max_list (map (\<lambda>spl. length (s_token spl)) samples) \<le> length_to_pad samples"
  "length_to_pad samples < max_list (map (\<lambda>spl. length (s_token spl)) samples) + 32"
  by (simp_all add: length_to_pad_def Let_def)

lemma length_to_pad_ge: "s \<in> set samples \<Longrightarrow> length (s_token s) \<le> length_to_pad samples"
  using max_list_ge [of "length (s_token s)" "map (\<lambda>spl. length (s_token spl)) samples"]
    length_to_pad_bounds(2) [of samples] by force

lemma pad_batch_fits:
  assumes "length tokens \<le> n" "length position_ids \<le> n"
  shows "pad_batch tokens position_ids attention_mask n =
     Inr (tokens @ replicate (n - length tokens) 0,
          position_ids @ replicate (n - length position_ids) 0,
          pad2 (n - length tokens) attention_mask)"
  using assms zeros_fit [of "length tokens" n] zeros_fit [of "length position_ids" n]
  by (simp add: pad_batch_def Let_def nat_diff_distrib' del: of_nat_diff)

lemma pad_all_fits:
  "(\<And>s. s \<in> set samples \<Longrightarrow> length (s_token s) \<le> n \<and> length (s_position_id s) \<le> n) \<Longrightarrow>
   pad_all n samples =
     Inr (map (\<lambda>s. (s_token s @ replicate (n - length (s_token s)) 0,
                     s_position_id s @ replicate (n - length (s_position_id s)) 0,
                     pad2 (n - length (s_token s)) (s_attention_mask s))) samples)"
  by (induction samples) (simp_all add: pad_batch_fits)

lemma ncols_pad2:
  "length m = n \<Longrightarrow> list_all (\<lambda>r. length r = n) m \<Longrightarrow> ncols (pad2 k m) = n + k"
  by (cases m; cases k) (simp_all add: pad2_def ncols_def)

lemma length_pad2: "length (pad2 k m) = length m + k"
  by (simp add: pad2_def)

lemma rows_pad2:
  "length m = n \<Longrightarrow> list_all (\<lambda>r. length r = n) m \<Longrightarrow>
   list_all (\<lambda>r. length r = n + k) (pad2 k m)"
  by (cases m) (auto simp: pad2_def ncols_def list_all_iff)

lemma padded_mask_shape:
  assumes "s \<in> set samples" "well_shaped s"
  shows "length (padded_mask samples s) = length_to_pad samples"
    and "ncols (padded_mask samples s) = length_to_pad samples"
    and "list_all (\<lambda>r. length r = length_to_pad samples) (padded_mask samples s)"
proof -
  let ?n = "length (s_token s)" and ?L = "length_to_pad samples"
  have le: "?n \<le> ?L" using assms(1) by (rule length_to_pad_ge)
  have a: "length (s_attention_mask s) = ?n"
    and b: "list_all (\<lambda>r. length r = ?n) (s_attention_mask s)"
    using assms(2) by (simp_all add: well_shaped_def)
  show "length (padded_mask samples s) = ?L"
    using le a by (simp add: padded_mask_def length_pad2)
  show "ncols (padded_mask samples s) = ?L"
    using le ncols_pad2 [OF a b, of "?L - ?n"] by (simp add: padded_mask_def)
  show "list_all (\<lambda>r. length r = ?L) (padded_mask samples s)"
    using le rows_pad2 [OF a b, of "?L - ?n"] by (simp add: padded_mask_def)
qed

lemma same_shape_padded:
  assumes ws: "\<And>s. s \<in> set samples \<Longrightarrow> well_shaped s"
  shows "same_shape (map (padded_mask samples) samples)"
proof (cases samples)
  case Nil
  then show ?thesis by (simp add: same_shape_def)
next
  case (Cons a rest)
  have a: "a \<in> set samples" using Cons by simp
  have "list_all (\<lambda>m'. length m' = length (padded_mask samples a)
                       \<and> ncols m' = ncols (padded_mask samples a))
          (map (padded_mask samples) samples)"
    unfolding list_all_iff
  proof
    fix m' assume "m' \<in> set (map (padded_mask samples) samples)"
    then obtain s where s: "s \<in> set samples" and m': "m' = padded_mask samples s"
      by auto
    show "length m' = length (padded_mask samples a) \<and> ncols m' = ncols (padded_mask samples a)"
      unfolding m'
      by (simp only: padded_mask_shape(1) [OF s ws [OF s]] padded_mask_shape(2) [OF s ws [OF s]]
            padded_mask_shape(1) [OF a ws [OF a]] padded_mask_shape(2) [OF a ws [OF a]])
  qed
  then show ?thesis
    unfolding same_shape_def by (simp add: Cons)
qed

lemma collate_fn_well_shaped:
  assumes ne: "samples \<noteq> []"
    and ws: "\<And>s. s \<in> set samples \<Longrightarrow> well_shaped s"
  shows "collate_fn flag samples =
     Inr \<lparr>b_tokens =
            map (\<lambda>s. s_token s @ replicate (length_to_pad samples - length (s_token s)) 0) samples,
          b_position_ids =
            map (\<lambda>s. s_position_id s
                       @ replicate (length_to_pad samples - length (s_position_id s)) 0) samples,
          b_attention_mask = map (\<lambda>s. below_half (padded_mask samples s)) samples,
          b_choices = map s_choices samples,
          b_choice_target_ids = map s_choice_target_ids samples,
          b_is_single_token = flag\<rparr>"
proof -
  let ?L = "length_to_pad samples"
  have fit: "length (s_token s) \<le> ?L \<and> length (s_position_id s) \<le> ?L"
    if "s \<in> set samples" for s
    using length_to_pad_ge [OF that] ws [OF that] by (simp add: well_shaped_def)
  have pa: "pad_all ?L samples =
     Inr (map (\<lambda>s. (s_token s @ replicate (?L - length (s_token s)) 0,
                     s_position_id s @ replicate (?L - length (s_position_id s)) 0,
                     pad2 (?L - length (s_token s)) (s_attention_mask s))) samples)"
    by (rule pad_all_fits) (rule fit)
  have pm: "padded_mask samples = (\<lambda>s. pad2 (?L - length (s_token s)) (s_attention_mask s))"
    by (rule ext) (simp add: padded_mask_def)
  have ss: "same_shape (map (\<lambda>s. pad2 (?L - length (s_token s)) (s_attention_mask s)) samples)"
    using same_shape_padded [of samples, OF ws] by (simp add: pm)
  show ?thesis
    using ne ss by (simp add: collate_fn_def Let_def pa comp_def pm)
qed

lemma length_below_half: "length (below_half m) = length m"
  by (simp add: below_half_def)

lemma rows_below_half: "r \<in> set (below_half m) \<Longrightarrow> \<exists>r' \<in> set m. length r = length r'"
  by (auto simp: below_half_def)

lemma pad_batch_error:
  "pad_batch tokens position_ids attention_mask n = Inl e \<Longrightarrow> e = ValueError"
  by (auto simp: pad_batch_def Let_def zeros_def split: if_splits)

lemma pad_all_error: "pad_all n samples = Inl e \<Longrightarrow> e = ValueError"
  by (induction samples) (auto split: sum.splits dest: pad_batch_error)

lemma collate_fn_error: "collate_fn flag samples = Inl e \<Longrightarrow> e = ValueError"
  by (auto simp: collate_fn_def Let_def split: if_splits sum.splits dest: pad_all_error)

lemma length_to_pad_example:
  "length (s_token a) = 10 \<Longrightarrow> length (s_token b) = 35 \<Longrightarrow> length_to_pad [a, b] = 64"
  by (simp add: length_to_pad_def Let_def)

text \<open>
  Claim C2 says that collating samples of mixed modes fails with an InconsistentBatch
  error. \<^verbatim>\<open>collate_fn\<close> never looks at the mode of a sample: the counterexample
  collates the single-token encoding of \<open>[[5], [7]]\<close> with the multi-token encoding of
  \<open>[[5, 6], [7]]\<close>. As amended: every non-empty list of encoded samples, of one mode or
  mixed, collates successfully; the batch carries the flag of the dataset and the
  choices and target ids of every sample unchanged; and the only error \<^verbatim>\<open>collate_fn\<close>
  can raise is a ValueError (an empty list, or arrays that do not fit or stack).
\<close>

theorem collate_has_no_mode_check:
  assumes ne: "samples \<noteq> []"
    and ws: "\<forall>s\<in>set samples. well_shaped s"
  shows "(\<exists>batch. collate_fn flag samples = Inr batch
          \<and> b_is_single_token batch = flag
          \<and> b_choices batch = map s_choices samples
          \<and> b_choice_target_ids batch = map s_choice_target_ids samples)
       \<and> (\<forall>e samples'. collate_fn flag samples' = Inl e \<longrightarrow> e = ValueError)"
proof -
  have "collate_fn flag samples =
     Inr \<lparr>b_tokens =
            map (\<lambda>s. s_token s @ replicate (length_to_pad samples - length (s_token s)) 0) samples,
          b_position_ids =
            map (\<lambda>s. s_position_id s
                       @ replicate (length_to_pad samples - length (s_position_id s)) 0) samples,
          b_attention_mask = map (\<lambda>s. below_half (padded_mask samples s)) samples,
          b_choices = map s_choices samples,
          b_choice_target_ids = map s_choice_target_ids samples,
          b_is_single_token = flag\<rparr>"
    using ws by (intro collate_fn_well_shaped [OF ne]) simp
  then have "\<exists>batch. collate_fn flag samples = Inr batch
          \<and> b_is_single_token batch = flag
          \<and> b_choices batch = map s_choices samples
          \<and> b_choice_target_ids batch = map s_choice_target_ids samples"
    by simp
  moreover have "\<forall>e samples'. collate_fn flag samples' = Inl e \<longrightarrow> e = ValueError"
    by (intro allI impI) (rule collate_fn_error)
  ultimately show ?thesis by (rule conjI)
qed

theorem mixed_modes_collate_counterexample:
  "build_multiple_choice_sample example_tokenizer [1, 2] [[5], [7]] True False =
     Inr \<lparr>s_token = [1, 2, 150000, 150004], s_position_id = [0, 1, 2, 2],
          s_attention_mask = [[1, 1, 1, 0], [1, 1, 1, 0], [1, 1, 1, 0], [1, 1, 1, 1]],
          s_choices = ChoiceFlat [5, 7], s_choice_target_ids = SingleTarget [3]\<rparr>
   \<and> build_multiple_choice_sample example_tokenizer [1, 2] [[5, 6], [7]] False False =
     Inr \<lparr>s_token = [1, 2, 150000, 150004, 5, 150004], s_position_id = [0, 1, 2, 2, 2, 2],
          s_attention_mask =
            [[1, 1, 1, 0, 0, 0], [1, 1, 1, 0, 0, 0], [1, 1, 1, 0, 0, 0],
             [1, 1, 1, 1, 0, 0], [1, 1, 1, 1, 1, 0], [1, 1, 1, 0, 0, 1]],
          s_choices = ChoiceNested [[5, 6], [7]],
          s_choice_target_ids = MultiTarget [[3, 4], [5]]\<rparr>
   \<and> \<not> isl (collate_fn False
        [\<lparr>s_token = [1, 2, 150000, 150004], s_position_id = [0, 1, 2, 2],
          s_attention_mask = [[1, 1, 1, 0], [1, 1, 1, 0], [1, 1, 1, 0], [1, 1, 1, 1]],
          s_choices = ChoiceFlat [5, 7], s_choice_target_ids = SingleTarget [3]\<rparr>,
         \<lparr>s_token = [1, 2, 150000, 150004, 5, 150004], s_position_id = [0, 1, 2, 2, 2, 2],
          s_attention_mask =
            [[1, 1, 1, 0, 0, 0], [1, 1, 1, 0, 0, 0], [1, 1, 1, 0, 0, 0],
             [1, 1, 1, 1, 0, 0], [1, 1, 1, 1, 1, 0], [1, 1, 1, 0, 0, 1]],
          s_choices = ChoiceNested [[5, 6], [7]],
          s_choice_target_ids = MultiTarget [[3, 4], [5]]\<rparr>])
   \<and> b_choice_target_ids (projr (collate_fn False
        [\<lparr>s_token = [1, 2, 150000, 150004], s_position_id = [0, 1, 2, 2],
          s_attention_mask = [[1, 1, 1, 0], [1, 1, 1, 0], [1, 1, 1, 0], [1, 1, 1, 1]],
          s_choices = ChoiceFlat [5, 7], s_choice_target_ids = SingleTarget [3]\<rparr>,
         \<lparr>s_token = [1, 2, 150000, 150004, 5, 150004], s_position_id = [0, 1, 2, 2, 2, 2],
          s_attention_mask =
            [[1, 1, 1, 0, 0, 0], [1, 1, 1, 0, 0, 0], [1, 1, 1, 0, 0, 0],
             [1, 1, 1, 1, 0, 0], [1, 1, 1, 1, 1, 0], [1, 1, 1, 0, 0, 1]],
          s_choices = ChoiceNested [[5, 6], [7]],
          s_choice_target_ids = MultiTarget [[3, 4], [5]]\<rparr>]))
       = [SingleTarget [3], MultiTarget [[3, 4], [5]]]"
  by (intro conjI; code_simp)

theorem collate_has_no_mode_check_witness:
  "[example_sample 2, example_multi_sample] \<noteq> []
   \<and> well_shaped (example_sample 2) \<and> well_shaped example_multi_sample
   \<and> s_choice_target_ids (example_sample 2) = SingleTarget [3]
   \<and> s_choice_target_ids example_multi_sample = MultiTarget [[3, 4], [5]]
   \<and> (\<exists>batch. collate_fn False [example_sample 2, example_multi_sample] = Inr batch
          \<and> b_is_single_token batch = False
          \<and> b_choices batch = map s_choices [example_sample 2, example_multi_sample]
          \<and> b_choice_target_ids batch =
              map s_choice_target_ids [example_sample 2, example_multi_sample])"
proof -
  have h1: "[example_sample 2, example_multi_sample] \<noteq> []"
    by simp
  have w1: "well_shaped (example_sample 2)"
    by code_simp
  have w2: "well_shaped example_multi_sample"
    by code_simp
  have t1: "s_choice_target_ids (example_sample 2) = SingleTarget [3]"
    by code_simp
  have t2: "s_choice_target_ids example_multi_sample = MultiTarget [[3, 4], [5]]"
    by code_simp
  have h2: "\<forall>s\<in>set [example_sample 2, example_multi_sample]. well_shaped s"
    by (simp add: w1 w2)
  show ?thesis
    by (intro conjI h1 w1 w2 t1 t2
          collate_has_no_mode_check [OF h1 h2, of False, THEN conjunct1])
qed

section \<open>The single-token flag of a multi-choice dataset\<close>

lemma sum_lengths_ge:
  "\<forall>c\<in>set cs. c \<noteq> [] \<Longrightarrow> length cs \<le> sum_list (map length cs)"
proof (induction cs)
  case Nil
  then show ?case by simp
next
  case (Cons c cs)
  then obtain x xs where "c = x # xs" by (cases c) auto
  with Cons show ?case by simp
qed

lemma sum_lengths_eq_iff:
  "\<forall>c\<in>set cs. c \<noteq> [] \<Longrightarrow>
   (sum_list (map length cs) = length cs) = (\<forall>c\<in>set cs. length c = 1)"
proof (induction cs)
  case Nil
  then show ?case by simp
next
  case (Cons c cs)
  obtain x xs where c: "c = x # xs" using Cons.prems by (cases c) auto
  have ge: "length cs \<le> sum_list (map length cs)"
    using Cons.prems by (intro sum_lengths_ge) simp
  have ih: "(sum_list (map length cs) = length cs) = (\<forall>c\<in>set cs. length c = 1)"
    using Cons by simp
  show ?case
  proof (cases "xs = []")
    case True
    then show ?thesis using ih c by simp
  next
    case False
    then obtain y ys where "xs = y # ys" by (cases xs) auto
    then have "sum_list (map length (c # cs)) \<noteq> length (c # cs)"
      using ge c by simp
    moreover have "length c \<noteq> 1" using False c by simp
    ultimately show ?thesis by simp
  qed
qed

lemma tgt_seq_length_one_iff:
  assumes "\<forall>c\<in>set cs. c \<noteq> []"
  shows "(tgt_seq_length_of cs = 1) = (\<forall>c\<in>set cs. length c = 1)"
proof (cases "sum_list (map length cs) = length cs")
  case True
  then show ?thesis
    using sum_lengths_eq_iff [OF assms] by (simp add: tgt_seq_length_of_def)
next
  case False
  have "sum_list (map length cs) \<noteq> 1"
  proof
    assume one: "sum_list (map length cs) = 1"
    then have "length cs \<le> 1" using sum_lengths_ge [OF assms] by simp
    then show False using False one by (cases cs) auto
  qed
  then show ?thesis
    using False sum_lengths_eq_iff [OF assms] by (simp add: tgt_seq_length_of_def)
qed

lemma process_single_item_Inr:
  "process_single_item config tk f item = Inr (f', it) \<Longrightarrow>
   i_choices it = r_choices item \<and> i_label it = r_label item
   \<and> f' = (f \<and> tgt_seq_length_of (r_choices item) = 1)"
  by (auto simp: process_single_item_def Let_def split: if_splits)

lemma load_items_Inr:
  "load_items config tk f items = Inr (f', data) \<Longrightarrow>
   map i_choices data = map r_choices items \<and> map i_label data = map r_label items
   \<and> f' = (f \<and> (\<forall>item\<in>set items. tgt_seq_length_of (r_choices item) = 1))"
proof (induction items arbitrary: f f' data)
  case Nil
  then show ?case by auto
next
  case (Cons item rest)
  from Cons.prems obtain f1 it data' where
    p: "process_single_item config tk f item = Inr (f1, it)"
    and l: "load_items config tk f1 rest = Inr (f', data')"
    and d: "data = it # data'"
    by (auto split: sum.splits prod.splits)
  show ?case
    using process_single_item_Inr [OF p] Cons.IH [OF l] d by auto
qed

lemma mc_prefix_Inr:
  "\<exists>token position_id mask_position.
     mc_prefix tk text = Inr (token, position_id, mask_position)
     \<and> length token = length text + (if get_command tk MASK \<in> set text then 0 else 1)"
proof (cases "get_command tk MASK \<in> set text")
  case True
  from index_of_mem [OF True] obtain p where "index_of text (get_command tk MASK) = Some p" ..
  then show ?thesis using True by (simp add: mc_prefix_def Let_def)
next
  case False
  then show ?thesis by (simp add: mc_prefix_def Let_def)
qed

lemma squeeze_choices_single:
  assumes "choices \<noteq> []" "\<forall>c\<in>set choices. length c = 1"
  shows "\<exists>r. squeeze_choices choices = Inr r"
proof -
  obtain c rest where cs: "choices = c # rest" using assms(1) by (cases choices) auto
  have n: "ncols choices = 1" using assms(2) cs by (simp add: ncols_def)
  have "list_all (\<lambda>c. length c = ncols choices) choices"
    using assms(2) by (simp add: n list_all_iff)
  then show ?thesis
    by (simp add: squeeze_choices_def)
qed

lemma build_single_token_target:
  assumes ne: "choices \<noteq> []" and one: "\<forall>c\<in>set choices. length c = 1"
  shows "\<exists>sample. build_multiple_choice_sample tk text choices True un = Inr sample
     \<and> s_choice_target_ids sample =
         SingleTarget [length text + (if get_command tk MASK \<in> set text then 0 else 1)]"
proof -
  obtain c rest where cs: "choices = c # rest" using ne by (cases choices) auto
  have c1: "length c = 1" using one cs by simp
  from mc_prefix_Inr [of tk "text"] obtain token position_id mask_position where
    pre: "mc_prefix tk text = Inr (token, position_id, mask_position)"
    and len: "length token = length text + (if get_command tk MASK \<in> set text then 0 else 1)"
    by blast
  from squeeze_choices_single [OF ne one] obtain r where sq: "squeeze_choices choices = Inr r" ..
  show ?thesis
    using len c1 by (simp add: build_multiple_choice_sample_def pre sq Let_def cs [symmetric])
      (simp add: cs choice_step_def Let_def)
qed

text \<open>
  Claim C3 reads the single-token flag item by item. In the code it is one flag of the
  whole dataset, cleared by any item whose target length is not 1 and then used for the
  encoding of every item: in the counterexample the first item has only choices of
  length 1 and is still encoded in multi-token form, because the second item has a
  choice of two tokens. As amended, for a dataset that loads and whose choices are all
  non-empty: the flag is true if and only if every choice of every item has length 1,
  and then the encoding of every item with at least one choice succeeds with
  \<open>choice_target_ids\<close> the one-element index array that holds the length of the token
  sequence before the choice tokens are appended (the context, plus the mask when the
  context has none).
\<close>

theorem dataset_single_token_flag:
  assumes load: "init_dataset config tk items = Inr (flag, data)"
    and ne: "\<forall>item\<in>set items. \<forall>c\<in>set (r_choices item). c \<noteq> []"
  shows "map i_choices data = map r_choices items
       \<and> (flag \<longleftrightarrow> (\<forall>item\<in>set items. \<forall>c\<in>set (r_choices item). length c = 1))
       \<and> (\<forall>idx<length data. flag \<and> i_choices (data ! idx) \<noteq> [] \<longrightarrow>
            (\<exists>sample. getitem config tk (flag, data) idx = Inr (sample, i_label (data ! idx))
               \<and> s_choice_target_ids sample =
                   SingleTarget [length (i_text (data ! idx))
                     + (if get_command tk MASK \<in> set (i_text (data ! idx)) then 0 else 1)]))"
proof -
  have l: "load_items config tk True items = Inr (flag, data)"
    using load by (simp add: init_dataset_def)
  note li = load_items_Inr [OF l]
  have ch: "map i_choices data = map r_choices items" using li by simp
  have fl: "flag = (\<forall>item\<in>set items. tgt_seq_length_of (r_choices item) = 1)"
    using li by simp
  have iff: "flag \<longleftrightarrow> (\<forall>item\<in>set items. \<forall>c\<in>set (r_choices item). length c = 1)"
    unfolding fl using ne tgt_seq_length_one_iff by blast
  have enc: "\<forall>idx<length data. flag \<and> i_choices (data ! idx) \<noteq> [] \<longrightarrow>
            (\<exists>sample. getitem config tk (flag, data) idx = Inr (sample, i_label (data ! idx))
               \<and> s_choice_target_ids sample =
                   SingleTarget [length (i_text (data ! idx))
                     + (if get_command tk MASK \<in> set (i_text (data ! idx)) then 0 else 1)])"
  proof (intro allI impI)
    fix idx assume idx: "idx < length data"
      and h: "flag \<and> i_choices (data ! idx) \<noteq> []"
    have len: "length data = length items"
      using ch by (metis length_map)
    have same: "i_choices (data ! idx) = r_choices (items ! idx)"
      using ch idx len by (metis nth_map)
    have mem: "items ! idx \<in> set items" using idx len by simp
    have one: "\<forall>c\<in>set (i_choices (data ! idx)). length c = 1"
      using h iff mem same by simp
    from h have nonempty: "i_choices (data ! idx) \<noteq> []" by simp
    from build_single_token_target [OF nonempty one, of tk "i_text (data ! idx)"
        "c_use_multitask_encoding config"]
    obtain sample where
      b: "build_multiple_choice_sample tk (i_text (data ! idx)) (i_choices (data ! idx)) True
            (c_use_multitask_encoding config) = Inr sample"
      and t: "s_choice_target_ids sample =
         SingleTarget [length (i_text (data ! idx))
           + (if get_command tk MASK \<in> set (i_text (data ! idx)) then 0 else 1)]"
      by blast
    have "getitem config tk (flag, data) idx = Inr (sample, i_label (data ! idx))"
      using idx h b by (simp add: getitem_def Let_def)
    then show "\<exists>sample. getitem config tk (flag, data) idx = Inr (sample, i_label (data ! idx))
               \<and> s_choice_target_ids sample =
                   SingleTarget [length (i_text (data ! idx))
                     + (if get_command tk MASK \<in> set (i_text (data ! idx)) then 0 else 1)]"
      using t by blast
  qed
  show ?thesis
    by (intro conjI ch iff enc)
qed

theorem item_flag_counterexample:
  "init_dataset example_config example_tokenizer
     [\<lparr>r_inputs = [1, 2], r_choices = [[5], [7]], r_label = 0\<rparr>,
      \<lparr>r_inputs = [1, 2], r_choices = [[5, 6], [7]], r_label = 1\<rparr>]
     = Inr (False, [\<lparr>i_text = [1, 2], i_choices = [[5], [7]], i_label = 0\<rparr>,
                    \<lparr>i_text = [1, 2], i_choices = [[5, 6], [7]], i_label = 1\<rparr>])
   \<and> list_all (\<lambda>c. length c = 1) [[5], [7 :: int]]
   \<and> getitem example_config example_tokenizer
         (False, [\<lparr>i_text = [1, 2], i_choices = [[5], [7]], i_label = 0\<rparr>,
                  \<lparr>i_text = [1, 2], i_choices = [[5, 6], [7]], i_label = 1\<rparr>]) 0
     = Inr (\<lparr>s_token = [1, 2, 150000, 150004, 150004],
            s_position_id = [0, 1, 2, 2, 2],
            s_attention_mask =
              [[1, 1, 1, 0, 0], [1, 1, 1, 0, 0], [1, 1, 1, 0, 0],
               [1, 1, 1, 1, 0], [1, 1, 1, 0, 1]],
            s_choices = ChoiceNested [[5], [7]],
            s_choice_target_ids = MultiTarget [[3], [4]]\<rparr>, 0)"
  by (intro conjI; code_simp)

theorem dataset_single_token_flag_witness:
  "init_dataset example_config example_tokenizer
     [\<lparr>r_inputs = [1, 2], r_choices = [[5], [7]], r_label = 0\<rparr>,
      \<lparr>r_inputs = [3, 150000, 4], r_choices = [[8], [9], [6]], r_label = 2\<rparr>]
     = Inr (True, [\<lparr>i_text = [1, 2], i_choices = [[5], [7]], i_label = 0\<rparr>,
                   \<lparr>i_text = [3, 150000, 4], i_choices = [[8], [9], [6]], i_label = 2\<rparr>])
   \<and> list_all (\<lambda>item. list_all (\<lambda>c. c \<noteq> []) (r_choices item))
        [\<lparr>r_inputs = [1, 2], r_choices = [[5], [7]], r_label = 0\<rparr>,
         \<lparr>r_inputs = [3, 150000, 4], r_choices = [[8], [9], [6]], r_label = 2\<rparr>]
   \<and> (\<exists>sample. getitem example_config example_tokenizer
          (True, [\<lparr>i_text = [1, 2], i_choices = [[5], [7]], i_label = 0\<rparr>,
                  \<lparr>i_text = [3, 150000, 4], i_choices = [[8], [9], [6]], i_label = 2\<rparr>]) 0
          = Inr (sample, 0)
        \<and> s_choice_target_ids sample = SingleTarget [3])
   \<and> (\<exists>sample. getitem example_config example_tokenizer
          (True, [\<lparr>i_text = [1, 2], i_choices = [[5], [7]], i_label = 0\<rparr>,
                  \<lparr>i_text = [3, 150000, 4], i_choices = [[8], [9], [6]], i_label = 2\<rparr>]) 1
          = Inr (sample, 2)
        \<and> s_choice_target_ids sample = SingleTarget [3])"
proof -
  let ?items = "[\<lparr>r_inputs = [1, 2], r_choices = [[5], [7]], r_label = 0\<rparr>,
      \<lparr>r_inputs = [3, 150000, 4], r_choices = [[8], [9], [6]], r_label = 2\<rparr>]"
  let ?data = "[\<lparr>i_text = [1, 2], i_choices = [[5], [7]], i_label = 0\<rparr>,
                   \<lparr>i_text = [3, 150000, 4], i_choices = [[8], [9], [6]], i_label = 2\<rparr>]"
  have load: "init_dataset example_config example_tokenizer ?items = Inr (True, ?data)"
    by code_simp
  have ne': "list_all (\<lambda>item. list_all (\<lambda>c. c \<noteq> []) (r_choices item)) ?items"
    by simp
  have ne: "\<forall>item\<in>set ?items. \<forall>c\<in>set (r_choices item). c \<noteq> []"
    by simp
  note t = dataset_single_token_flag [OF load ne, THEN conjunct2, THEN conjunct2]
  have m: "get_command example_tokenizer MASK = 150000"
    by (simp add: example_tokenizer_simps)
  have a: "\<exists>sample. getitem example_config example_tokenizer (True, ?data) 0 = Inr (sample, 0)
        \<and> s_choice_target_ids sample = SingleTarget [3]"
    using t [THEN spec, of 0] by (simp add: m numeral_3_eq_3)
  have b: "\<exists>sample. getitem example_config example_tokenizer (True, ?data) 1 = Inr (sample, 2)
        \<and> s_choice_target_ids sample = SingleTarget [3]"
    using t [THEN spec, of 1] by (simp add: m numeral_3_eq_3)
  show ?thesis
    by (intro conjI load ne' a b)
qed

section \<open>The attention mask handed to the model\<close>

lemma is_square_ncols: "is_square n m \<Longrightarrow> ncols m = n"
  by (cases m) (auto simp: is_square_def ncols_def)

lemma is_square_row: "is_square n m \<Longrightarrow> i < n \<Longrightarrow> length (m ! i) = n"
  by (auto simp: is_square_def list_all_length)

lemma is_square_ones: "is_square d (ones d d)"
  by (simp add: is_square_def ones_def list_all_iff)

lemma is_square_tril: "is_square n (tril_ones n)"
  by (simp add: is_square_def tril_ones_def list_all_iff)

lemma tril_ones_nth: "i < n \<Longrightarrow> j < n \<Longrightarrow> tril_ones n ! i ! j = (if j \<le> i then 1 else 0)"
  by (simp add: tril_ones_def)

lemma is_square_block_diag2:
  assumes "is_square n a" "is_square k b"
  shows "is_square (n + k) (block_diag2 a b)"
  using assms is_square_ncols [OF assms(1)] is_square_ncols [OF assms(2)]
  by (auto simp: is_square_def block_diag2_def list_all_iff)

lemma is_square_tril_blocks: "is_square (sum_list ns) (block_diag (map tril_ones ns))"
proof (induction ns)
  case Nil
  then show ?case by (simp add: is_square_def)
next
  case (Cons n ns)
  then show ?case
    using is_square_block_diag2 [OF is_square_tril [of n] Cons] by simp
qed

lemma is_square_mc_blocks:
  "is_square (d + sum_list ns) (block_diag (ones d d # map tril_ones ns))"
  using is_square_block_diag2 [OF is_square_ones [of d] is_square_tril_blocks [of ns]] by simp

lemma length_set_block: "length (set_block m r c) = length m"
  by (simp add: set_block_def)

lemma length_set_block_row: "i < length m \<Longrightarrow> length (set_block m r c ! i) = length (m ! i)"
  by (simp add: set_block_def)

lemma set_block_nth:
  "i < length m \<Longrightarrow> j < length (m ! i) \<Longrightarrow>
   set_block m r c ! i ! j = (if i < r \<and> j < c then 1 else m ! i ! j)"
  by (simp add: set_block_def)

lemma is_square_set_block: "is_square n m \<Longrightarrow> is_square n (set_block m r c)"
  by (auto simp: is_square_def list_all_length length_set_block length_set_block_row)

lemma binary_nth: "binary m \<Longrightarrow> i < length m \<Longrightarrow> j < length (m ! i) \<Longrightarrow> m ! i ! j \<in> {0, 1}"
  by (auto simp: binary_def list_all_length)

lemma binary_ones: "binary (ones r c)"
  by (simp add: binary_def ones_def list_all_iff)

lemma binary_tril_ones: "binary (tril_ones n)"
  by (auto simp: binary_def tril_ones_def list_all_iff)

lemma binary_block_diag2: "binary a \<Longrightarrow> binary b \<Longrightarrow> binary (block_diag2 a b)"
  by (fastforce simp: binary_def block_diag2_def list_all_iff)

lemma binary_block_diag: "list_all binary ms \<Longrightarrow> binary (block_diag ms)"
proof (induction ms)
  case Nil
  then show ?case by (simp add: binary_def)
next
  case (Cons a ms)
  then show ?case by (simp add: binary_block_diag2)
qed

lemma binary_set_block: "binary m \<Longrightarrow> binary (set_block m r c)"
  by (auto simp: binary_def set_block_def list_all_length)

lemma binary_mc_blocks: "binary (block_diag (ones d d # map tril_ones ns))"
  by (rule binary_block_diag) (simp add: binary_ones binary_tril_ones list_all_iff)

lemma below_half_nth:
  "i < length m \<Longrightarrow> j < length (m ! i) \<Longrightarrow> below_half m ! i ! j \<longleftrightarrow> m ! i ! j \<le> 0"
  by (simp add: below_half_def) linarith

lemma length_below_half_row: "i < length m \<Longrightarrow> length (below_half m ! i) = length (m ! i)"
  by (simp add: below_half_def)

lemma is_square_pad2: "is_square n m \<Longrightarrow> is_square (n + k) (pad2 k m)"
  using is_square_ncols [of n m] by (auto simp: is_square_def pad2_def list_all_iff)

lemma pad2_nth:
  assumes sq: "is_square n m" and r: "r < n + k" and c: "c < n + k"
  shows "pad2 k m ! r ! c = (if r < n \<and> c < n then m ! r ! c else 0)"
proof (cases "r < n")
  case True
  have row: "pad2 k m ! r = m ! r @ replicate k 0"
    using True sq by (simp add: pad2_def nth_append is_square_def)
  show ?thesis
    using True c is_square_row [OF sq True] by (simp add: row nth_append)
next
  case False
  have l: "length m = n" using sq by (simp add: is_square_def)
  have row: "pad2 k m ! r = replicate (n + k) 0"
    using False r l is_square_ncols [OF sq] by (simp add: pad2_def nth_append)
  show ?thesis
    using False c by (simp add: row)
qed

subsection \<open>The generation encoding\<close>

lemma gen_visibility_square: "is_square n (gen_visibility n uni ctx)"
  by (simp add: gen_visibility_def Let_def is_square_tril is_square_set_block)

lemma gen_visibility_binary: "binary (gen_visibility n uni ctx)"
  by (simp add: gen_visibility_def Let_def binary_tril_ones binary_set_block)

lemma gen_visibility_nth:
  assumes ctx: "0 < ctx" "ctx \<le> n" and i: "i < n" and j: "j < n"
  shows "gen_visibility n uni ctx ! i ! j =
     (if j \<le> i \<or> (\<not> uni \<and> i + 1 < ctx \<and> j + 1 < ctx) then 1 else 0)"
proof -
  have b: "slice_bound n (int ctx - 1) = ctx - 1"
    using ctx by (simp add: slice_bound_pred)
  have l: "i < length (tril_ones n)"
    using i is_square_tril [of n] by (simp add: is_square_def)
  have r: "j < length (tril_ones n ! i)"
    using j is_square_row [OF is_square_tril i] by simp
  show ?thesis
    using i j ctx
    by (auto simp: gen_visibility_def Let_def b set_block_nth [OF l r] tril_ones_nth)
qed

lemma build_generation_sample_Inr:
  assumes "build_generation_sample tk text n utm uni = Inr item"
  shows "0 < g_context_length item \<and> g_context_length item \<le> n
       \<and> g_attention_mask item = below_half (gen_visibility n uni (g_context_length item))"
proof -
  from assms obtain token mp where
    lay: "gen_layout tk text utm uni = Inr (token, mp)"
    by (cases "gen_layout tk text utm uni") (auto simp: build_generation_sample_def)
  have le: "length token \<le> n"
  proof (rule ccontr)
    assume "\<not> length token \<le> n"
    then have "n < length token" by simp
    from build_generation_sample_long [OF lay this] assms show False by simp
  qed
  from build_generation_sample_fits [OF lay le] assms gen_layout_nonempty [OF lay] le
  show ?thesis by auto
qed

subsection \<open>The multi-choice encoding, with or without empty choices\<close>

lemma choice_loop_single:
  "choice_loop tk bf un mp True cs st = choice_loop tk bf un mp False (take 1 cs) st"
  by (cases cs) (simp_all add: Let_def)

lemma choice_loop_blocks:
  "st_attention_mask (choice_loop tk bf un mp False cs st) =
     st_attention_mask st @ map tril_ones (map length cs)
   \<and> length (st_token st) + sum_list (map length cs)
       \<le> length (st_token (choice_loop tk bf un mp False cs st))"
proof (induction cs arbitrary: st)
  case Nil
  then show ?case by simp
next
  case (Cons c cs)
  let ?st = "choice_step tk bf un mp st c"
  have a: "st_attention_mask ?st = st_attention_mask st @ [tril_ones (length c)]"
    by (simp add: choice_step_def)
  have b: "length (st_token st) + length c \<le> length (st_token ?st)"
    by (cases c) (simp_all add: choice_step_def)
  show ?case
    using Cons.IH [of ?st] a b by (simp add: Let_def)
qed

lemma mc_prefix_division:
  "mc_prefix tk text = Inr (token, position_id, mask_position) \<Longrightarrow>
   length token = mc_division tk text \<and> 0 < mc_division tk text"
  by (auto simp: mc_division_def mc_prefix_def Let_def split: if_splits option.splits)

lemma mc_visibility_long:
  assumes "d + sum_list ns \<le> t"
  shows "mc_visibility (ones d d # map tril_ones ns) t d =
     set_block (block_diag (ones d d # map tril_ones ns)) (d + sum_list ns) d"
proof -
  have sq: "is_square (d + sum_list ns) (block_diag (ones d d # map tril_ones ns))"
    by (rule is_square_mc_blocks)
  have l: "length (block_diag (ones d d # map tril_ones ns)) = d + sum_list ns"
    using sq by (simp add: is_square_def)
  have c: "ncols (block_diag (ones d d # map tril_ones ns)) = d + sum_list ns"
    using sq by (rule is_square_ncols)
  have s1: "slice_bound (d + sum_list ns) (int t) = d + sum_list ns"
    using assms by (simp add: slice_bound_int)
  have s2: "slice_bound (d + sum_list ns) (int d) = d"
    by (simp add: slice_bound_int)
  show ?thesis
    unfolding mc_visibility_def Let_def l c s1 s2 ..
qed

lemma build_mask:
  assumes ok: "build_multiple_choice_sample tk text choices single un = Inr sample"
  shows "\<exists>ns. s_attention_mask sample =
           set_block (block_diag (ones (mc_division tk text) (mc_division tk text)
                                  # map tril_ones ns))
             (mc_division tk text + sum_list ns) (mc_division tk text)
         \<and> mc_division tk text + sum_list ns \<le> length (s_token sample)"
proof -
  let ?d = "mc_division tk text"
  from ok obtain token position_id mask_position where
    pre: "mc_prefix tk text = Inr (token, position_id, mask_position)"
    by (cases "mc_prefix tk text") (auto simp: build_multiple_choice_sample_def)
  have lt: "length token = ?d"
    using mc_prefix_division [OF pre] by simp
  define cs where "cs = (if single then take 1 choices else choices)"
  define st0 where "st0 = \<lparr>st_token = token, st_position_id = position_id,
      st_choice_target_id = [], st_attention_mask = [ones (length token) (length token)]\<rparr>"
  define st where "st = choice_loop tk (get_command tk MASK \<in> set text) un mask_position single
      choices st0"
  have st': "st = choice_loop tk (get_command tk MASK \<in> set text) un mask_position False cs st0"
    by (simp add: st_def cs_def choice_loop_single)
  have blocks: "st_attention_mask st = ones ?d ?d # map tril_ones (map length cs)"
    and len: "?d + sum_list (map length cs) \<le> length (st_token st)"
    using choice_loop_blocks [of tk "get_command tk MASK \<in> set text" un mask_position cs st0]
    by (simp_all add: st' st0_def lt)
  have b: "build_multiple_choice_sample tk text choices single un =
     (case (if single then squeeze_choices choices else Inr (ChoiceNested choices)) of
        Inl e \<Rightarrow> Inl e
      | Inr choices' \<Rightarrow>
          (case (if single
                 then (case st_choice_target_id st of
                         [] \<Rightarrow> Inl IndexError
                       | t # _ \<Rightarrow> Inr (SingleTarget t))
                 else Inr (MultiTarget (st_choice_target_id st))) of
             Inl e \<Rightarrow> Inl e
           | Inr targets \<Rightarrow>
               Inr \<lparr>s_token = st_token st,
                    s_position_id = st_position_id st,
                    s_attention_mask =
                      mc_visibility (st_attention_mask st) (length (st_token st)) (length token),
                    s_choices = choices',
                    s_choice_target_ids = targets\<rparr>))"
    by (simp only: build_multiple_choice_sample_def pre Let_def st_def st0_def sum.case prod.case)
  from ok [unfolded b] have sample:
    "s_token sample = st_token st"
    "s_attention_mask sample =
       mc_visibility (st_attention_mask st) (length (st_token st)) (length token)"
    by (auto split: if_splits sum.splits list.splits)
  have "s_attention_mask sample =
      set_block (block_diag (ones ?d ?d # map tril_ones (map length cs)))
        (?d + sum_list (map length cs)) ?d"
    unfolding sample(2) blocks lt by (rule mc_visibility_long [OF len])
  moreover have "?d + sum_list (map length cs) \<le> length (s_token sample)"
    using len by (simp add: sample(1))
  ultimately show ?thesis by blast
qed

lemma build_mask_facts:
  assumes ok: "build_multiple_choice_sample tk text choices single un = Inr sample"
  shows "is_square (length (s_attention_mask sample)) (s_attention_mask sample)"
    and "binary (s_attention_mask sample)"
    and "0 < mc_division tk text"
    and "mc_division tk text \<le> length (s_attention_mask sample)"
    and "length (s_attention_mask sample) \<le> length (s_token sample)"
    and "r < length (s_attention_mask sample) \<Longrightarrow> c < mc_division tk text \<Longrightarrow>
         s_attention_mask sample ! r ! c = 1"
proof -
  let ?d = "mc_division tk text"
  from build_mask [OF ok] obtain ns where
    m: "s_attention_mask sample =
          set_block (block_diag (ones ?d ?d # map tril_ones ns)) (?d + sum_list ns) ?d"
    and le: "?d + sum_list ns \<le> length (s_token sample)"
    by blast
  define bd where "bd = block_diag (ones ?d ?d # map tril_ones ns)"
  have sq: "is_square (?d + sum_list ns) bd"
    unfolding bd_def by (rule is_square_mc_blocks)
  have bin: "binary bd"
    unfolding bd_def by (rule binary_mc_blocks)
  have m': "s_attention_mask sample = set_block bd (?d + sum_list ns) ?d"
    by (simp add: m bd_def)
  have l: "length (s_attention_mask sample) = ?d + sum_list ns"
    using sq by (simp add: m' length_set_block is_square_def)
  show "is_square (length (s_attention_mask sample)) (s_attention_mask sample)"
    unfolding l unfolding m' by (rule is_square_set_block [OF sq])
  show "binary (s_attention_mask sample)"
    unfolding m' by (rule binary_set_block [OF bin])
  from ok obtain token position_id mask_position where
    pre: "mc_prefix tk text = Inr (token, position_id, mask_position)"
    by (cases "mc_prefix tk text") (auto simp: build_multiple_choice_sample_def)
  show "0 < ?d" using mc_prefix_division [OF pre] by simp
  show "?d \<le> length (s_attention_mask sample)" by (simp add: l)
  show "length (s_attention_mask sample) \<le> length (s_token sample)"
    using le by (simp add: l)
  show "s_attention_mask sample ! r ! c = 1"
    if r: "r < length (s_attention_mask sample)" and c: "c < ?d"
  proof -
    have r': "r < ?d + sum_list ns" using r by (simp add: l)
    have rl: "r < length bd" using sq r' by (simp add: is_square_def)
    have cl: "c < length (bd ! r)" using is_square_row [OF sq r'] c by simp
    show ?thesis
      using r' c by (simp add: m' set_block_nth [OF rl cl])
  qed
qed

subsection \<open>The mask of a sample inside a batch\<close>

lemma pad_batch_Inr:
  "pad_batch tokens position_ids attention_mask n = Inr t \<Longrightarrow>
   length tokens \<le> n \<and> snd (snd t) = pad2 (n - length tokens) attention_mask"
  by (auto simp: pad_batch_def Let_def nat_diff_distrib' split: if_splits sum.splits
        simp del: of_nat_diff)

lemma pad_all_Inr:
  "pad_all n samples = Inr padded \<Longrightarrow>
   length padded = length samples
   \<and> (\<forall>k<length samples. length (s_token (samples ! k)) \<le> n
        \<and> snd (snd (padded ! k))
            = pad2 (n - length (s_token (samples ! k))) (s_attention_mask (samples ! k)))"
proof (induction samples arbitrary: padded)
  case Nil
  then show ?case by simp
next
  case (Cons s rest)
  from Cons.prems obtain t ts where
    t: "pad_batch (s_token s) (s_position_id s) (s_attention_mask s) n = Inr t"
    and ts: "pad_all n rest = Inr ts" and p: "padded = t # ts"
    by (auto split: sum.splits)
  note h = pad_batch_Inr [OF t] and ih = Cons.IH [OF ts]
  show ?case
  proof (intro conjI allI impI)
    show "length padded = length (s # rest)" using ih by (simp add: p)
  next
    fix k assume k: "k < length (s # rest)"
    show "length (s_token ((s # rest) ! k)) \<le> n"
      using k h ih by (cases k) simp_all
    show "snd (snd (padded ! k))
            = pad2 (n - length (s_token ((s # rest) ! k))) (s_attention_mask ((s # rest) ! k))"
      using k h ih by (cases k) (simp_all add: p)
  qed
qed

lemma collate_fn_mask:
  assumes ok: "collate_fn flag samples = Inr batch" and k: "k < length samples"
  shows "snd (snd (process_data batch)) ! k =
     [below_half (pad2 (length_to_pad samples - length (s_token (samples ! k)))
                    (s_attention_mask (samples ! k)))]"
proof -
  from ok obtain padded where
    pa: "pad_all (length_to_pad samples) samples = Inr padded"
    and b: "b_attention_mask batch = map below_half (map (\<lambda>t. snd (snd t)) padded)"
    by (auto simp: collate_fn_def Let_def split: if_splits sum.splits)
  note h = pad_all_Inr [OF pa]
  have kp: "k < length padded" using h k by simp
  have "snd (snd (padded ! k)) =
      pad2 (length_to_pad samples - length (s_token (samples ! k)))
        (s_attention_mask (samples ! k))"
    using h k by simp
  then show ?thesis
    using kp by (simp add: process_data_def b)
qed

text \<open>
  Claim C10. The Boolean mask that reaches the model is the complement of the 0/1
  visibility matrix that the encoder builds. For a generation sample: the mask of the item
  is \<open>max_seq_length\<close> square, every entry of the visibility matrix is 0 or 1, an entry
  of the mask is True exactly where the visibility is 0, and that is exactly where the
  column lies after the row and outside the bidirectional context block
  \<open>[0, context_length - 1)\<close>; so the context block is all False. For a collated batch:
  the mask that \<^verbatim>\<open>process_data\<close> hands over for a sample encoded by
  \<^verbatim>\<open>build_multiple_choice_sample\<close> is the visibility matrix of the sample, padded
  with zeros and complemented, under one more axis: False exactly where the matrix of
  the sample holds 1 and True in the padding; the matrix holds zeros and ones only, and
  the columns of the shared context (the first \<open>division\<close> ones) are 1 in every row of
  the sample, so False in the mask.
\<close>

theorem delivered_mask_is_complement:
  "(build_generation_sample tk gtext max_seq_length use_task_mask unidirectional = Inr item \<longrightarrow>
      length (g_attention_mask item) = max_seq_length
      \<and> (\<forall>i<max_seq_length. \<forall>j<max_seq_length.
           length (g_attention_mask item ! i) = max_seq_length
           \<and> gen_visibility max_seq_length unidirectional (g_context_length item) ! i ! j \<in> {0, 1}
           \<and> (g_attention_mask item ! i ! j \<longleftrightarrow>
                gen_visibility max_seq_length unidirectional (g_context_length item) ! i ! j = 0)
           \<and> (g_attention_mask item ! i ! j \<longleftrightarrow>
                \<not> (j \<le> i \<or> (\<not> unidirectional \<and> i + 1 < g_context_length item
                                \<and> j + 1 < g_context_length item)))))
   \<and> (collate_fn is_single_token samples = Inr batch \<and> k < length samples
      \<and> build_multiple_choice_sample tk mtext choices single unified = Inr (samples ! k) \<longrightarrow>
      (\<exists>mask. snd (snd (process_data batch)) ! k = [mask]
         \<and> length (s_attention_mask (samples ! k)) \<le> length (s_token (samples ! k))
         \<and> length (s_token (samples ! k)) \<le> length_to_pad samples
         \<and> length mask = length (s_attention_mask (samples ! k))
                           + (length_to_pad samples - length (s_token (samples ! k)))
         \<and> (\<forall>r<length mask. \<forall>c<length mask.
              length (mask ! r) = length mask
              \<and> (mask ! r ! c \<longleftrightarrow>
                   \<not> (r < length (s_attention_mask (samples ! k))
                      \<and> c < length (s_attention_mask (samples ! k))
                      \<and> s_attention_mask (samples ! k) ! r ! c = 1)))
         \<and> (\<forall>r<length (s_attention_mask (samples ! k)).
              \<forall>c<length (s_attention_mask (samples ! k)).
                s_attention_mask (samples ! k) ! r ! c \<in> {0, 1})
         \<and> 0 < mc_division tk mtext
         \<and> mc_division tk mtext \<le> length (s_attention_mask (samples ! k))
         \<and> (\<forall>r<length (s_attention_mask (samples ! k)). \<forall>c<mc_division tk mtext.
              s_attention_mask (samples ! k) ! r ! c = 1 \<and> \<not> mask ! r ! c)))"
proof (intro conjI impI)
  assume ok: "build_generation_sample tk gtext max_seq_length use_task_mask unidirectional = Inr item"
  let ?n = max_seq_length and ?ctx = "g_context_length item"
  let ?v = "gen_visibility ?n unidirectional ?ctx"
  note h = build_generation_sample_Inr [OF ok]
  have ctx: "0 < ?ctx" "?ctx \<le> ?n" and m: "g_attention_mask item = below_half ?v"
    using h by simp_all
  have sq: "is_square ?n ?v" by (rule gen_visibility_square)
  have lv: "length ?v = ?n" using sq by (simp add: is_square_def)
  show "length (g_attention_mask item) = ?n"
    by (simp add: m length_below_half lv)
  show "\<forall>i<?n. \<forall>j<?n.
           length (g_attention_mask item ! i) = ?n
           \<and> ?v ! i ! j \<in> {0, 1}
           \<and> (g_attention_mask item ! i ! j \<longleftrightarrow> ?v ! i ! j = 0)
           \<and> (g_attention_mask item ! i ! j \<longleftrightarrow>
                \<not> (j \<le> i \<or> (\<not> unidirectional \<and> i + 1 < ?ctx \<and> j + 1 < ?ctx)))"
  proof (intro allI impI)
    fix i j assume i: "i < ?n" and j: "j < ?n"
    have il: "i < length ?v" using i lv by simp
    have jl: "j < length (?v ! i)" using is_square_row [OF sq i] j by simp
    have e: "?v ! i ! j =
        (if j \<le> i \<or> (\<not> unidirectional \<and> i + 1 < ?ctx \<and> j + 1 < ?ctx) then 1 else 0)"
      by (rule gen_visibility_nth [OF ctx i j])
    have d: "g_attention_mask item ! i ! j \<longleftrightarrow> ?v ! i ! j \<le> 0"
      unfolding m by (rule below_half_nth [OF il jl])
    have r: "length (g_attention_mask item ! i) = ?n"
      unfolding m using length_below_half_row [OF il] is_square_row [OF sq i] by simp
    show "length (g_attention_mask item ! i) = ?n
           \<and> ?v ! i ! j \<in> {0, 1}
           \<and> (g_attention_mask item ! i ! j \<longleftrightarrow> ?v ! i ! j = 0)
           \<and> (g_attention_mask item ! i ! j \<longleftrightarrow>
                \<not> (j \<le> i \<or> (\<not> unidirectional \<and> i + 1 < ?ctx \<and> j + 1 < ?ctx)))"
      using r d by (simp add: e)
  qed
next
  assume a: "collate_fn is_single_token samples = Inr batch \<and> k < length samples
      \<and> build_multiple_choice_sample tk mtext choices single unified = Inr (samples ! k)"
  then have ok: "collate_fn is_single_token samples = Inr batch" and k: "k < length samples"
    and bu: "build_multiple_choice_sample tk mtext choices single unified = Inr (samples ! k)"
    by simp_all
  let ?s = "samples ! k"
  let ?vis = "s_attention_mask ?s"
  let ?n = "length ?vis"
  let ?p = "length_to_pad samples - length (s_token ?s)"
  let ?d = "mc_division tk mtext"
  define mask where "mask = below_half (pad2 ?p ?vis)"
  note f = build_mask_facts [OF bu]
  have sq: "is_square (?n + ?p) (pad2 ?p ?vis)"
    by (rule is_square_pad2 [OF f(1)])
  have lp: "length (pad2 ?p ?vis) = ?n + ?p"
    using sq by (simp add: is_square_def)
  have lm: "length mask = ?n + ?p"
    by (simp add: mask_def length_below_half lp)
  have fit: "length (s_token ?s) \<le> length_to_pad samples"
    by (rule length_to_pad_ge) (use k in simp)
  have bin: "?vis ! r ! c \<in> {0, 1}" if "r < ?n" "c < ?n" for r c
    using binary_nth [OF f(2) that(1)] is_square_row [OF f(1) that(1)] that(2) by simp
  have ent: "length (mask ! r) = length mask
      \<and> (mask ! r ! c \<longleftrightarrow> \<not> (r < ?n \<and> c < ?n \<and> ?vis ! r ! c = 1))"
    if r: "r < length mask" and c: "c < length mask" for r c
  proof -
    have r': "r < ?n + ?p" and c': "c < ?n + ?p" using r c lm by simp_all
    have rl: "r < length (pad2 ?p ?vis)" using r' lp by simp
    have row: "length (pad2 ?p ?vis ! r) = ?n + ?p" by (rule is_square_row [OF sq r'])
    have cl: "c < length (pad2 ?p ?vis ! r)" using c' row by simp
    have e: "pad2 ?p ?vis ! r ! c = (if r < ?n \<and> c < ?n then ?vis ! r ! c else 0)"
      by (rule pad2_nth [OF f(1) r' c'])
    have d: "mask ! r ! c \<longleftrightarrow> pad2 ?p ?vis ! r ! c \<le> 0"
      unfolding mask_def by (rule below_half_nth [OF rl cl])
    have lr: "length (mask ! r) = length mask"
      unfolding mask_def using length_below_half_row [OF rl] row lm
      by (simp add: mask_def)
    show ?thesis
    proof (cases "r < ?n \<and> c < ?n")
      case True
      then show ?thesis using lr d e bin [of r c] by auto
    next
      case False
      then show ?thesis using lr d e by auto
    qed
  qed
  have cb: "?vis ! r ! c = 1 \<and> \<not> mask ! r ! c" if r: "r < ?n" and c: "c < ?d" for r c
  proof -
    have one: "?vis ! r ! c = 1" by (rule f(6) [OF r c])
    have "r < length mask" "c < length mask" using r c f(4) lm by simp_all
    from ent [OF this] one r c f(4) show ?thesis by simp
  qed
  show "\<exists>mask. snd (snd (process_data batch)) ! k = [mask]
         \<and> ?n \<le> length (s_token ?s)
         \<and> length (s_token ?s) \<le> length_to_pad samples
         \<and> length mask = ?n + ?p
         \<and> (\<forall>r<length mask. \<forall>c<length mask.
              length (mask ! r) = length mask
              \<and> (mask ! r ! c \<longleftrightarrow> \<not> (r < ?n \<and> c < ?n \<and> ?vis ! r ! c = 1)))
         \<and> (\<forall>r<?n. \<forall>c<?n. ?vis ! r ! c \<in> {0, 1})
         \<and> 0 < ?d \<and> ?d \<le> ?n
         \<and> (\<forall>r<?n. \<forall>c<?d. ?vis ! r ! c = 1 \<and> \<not> mask ! r ! c)"
  proof (intro exI [of _ mask] conjI allI impI)
    show "snd (snd (process_data batch)) ! k = [mask]"
      unfolding mask_def by (rule collate_fn_mask [OF ok k])
    show "?n \<le> length (s_token ?s)" by (rule f(5))
    show "length (s_token ?s) \<le> length_to_pad samples" by (rule fit)
    show "length mask = ?n + ?p" by (rule lm)
    show "0 < ?d" by (rule f(3))
    show "?d \<le> ?n" by (rule f(4))
  next
    fix r c assume "r < length mask" "c < length mask"
    from ent [OF this] show "length (mask ! r) = length mask" by simp
  next
    fix r c assume "r < length mask" "c < length mask"
    from ent [OF this]
    show "mask ! r ! c \<longleftrightarrow> \<not> (r < ?n \<and> c < ?n \<and> ?vis ! r ! c = 1)" by simp
  next
    fix r c assume "r < ?n" "c < ?n"
    then show "?vis ! r ! c \<in> {0, 1}" by (rule bin)
  next
    fix r c assume "r < ?n" "c < ?d"
    from cb [OF this] show "?vis ! r ! c = 1" by simp
  next
    fix r c assume "r < ?n" "c < ?d"
    from cb [OF this] show "\<not> mask ! r ! c" by simp
  qed
qed

theorem delivered_mask_is_complement_witness:
  "build_generation_sample example_tokenizer [11, 12, 13] 8 False False =
     Inr \<lparr>g_tokens = [11, 12, 13, 150000, 150004, 0, 0, 0],
          g_position_ids = [0, 1, 2, 3, 3, 3, 3, 3],
          g_attention_mask = below_half (gen_visibility 8 False 5),
          g_context_length = 5\<rparr>
   \<and> \<not> below_half (gen_visibility 8 False 5) ! 0 ! 3
   \<and> below_half (gen_visibility 8 False 5) ! 0 ! 5
   \<and> \<not> isl (collate_fn False [example_multi_sample])
   \<and> build_multiple_choice_sample example_tokenizer [1, 2] [[5, 6], [7]] False False =
       Inr ([example_multi_sample] ! 0)
   \<and> (\<exists>mask. snd (snd (process_data (projr (collate_fn False [example_multi_sample])))) ! 0
                = [mask]
        \<and> length mask = 32
        \<and> \<not> mask ! 3 ! 0 \<and> \<not> mask ! 4 ! 3 \<and> mask ! 3 ! 4 \<and> mask ! 5 ! 3 \<and> mask ! 6 ! 0)"
proof -
  define item where "item =
     \<lparr>g_tokens = [11, 12, 13, 150000, 150004, 0, 0, 0 :: int],
      g_position_ids = [0, 1, 2, 3, 3, 3, 3, 3 :: int],
      g_attention_mask = below_half (gen_visibility 8 False 5),
      g_context_length = 5 :: nat\<rparr>"
  define batch where "batch = projr (collate_fn False [example_multi_sample])"
  have g: "build_generation_sample example_tokenizer [11, 12, 13] 8 False False = Inr item"
    unfolding item_def by code_simp
  have n: "\<not> isl (collate_fn False [example_multi_sample])"
    by code_simp
  have c: "collate_fn False [example_multi_sample] = Inr batch"
    unfolding batch_def using n by simp
  have k: "0 < length [example_multi_sample]"
    by simp
  have b: "build_multiple_choice_sample example_tokenizer [1, 2] [[5, 6], [7]] False False =
       Inr ([example_multi_sample] ! 0)"
    by code_simp
  have vis: "s_attention_mask example_multi_sample =
      [[1, 1, 1, 0, 0, 0], [1, 1, 1, 0, 0, 0], [1, 1, 1, 0, 0, 0],
       [1, 1, 1, 1, 0, 0], [1, 1, 1, 1, 1, 0], [1, 1, 1, 0, 0, 1]]"
    by code_simp
  have tok: "length (s_token example_multi_sample) = 6"
    by code_simp
  have pad: "length_to_pad [example_multi_sample] = 32"
    by code_simp
  note t = delivered_mask_is_complement
    [where tk = example_tokenizer and gtext = "[11, 12, 13]" and max_seq_length = 8
       and use_task_mask = False and unidirectional = False and item = item
       and is_single_token = False and samples = "[example_multi_sample]" and batch = batch
       and k = 0 and mtext = "[1, 2]" and choices = "[[5, 6], [7]]" and single = False
       and unified = False]
  note ge = t [THEN conjunct1, rule_format, OF g, THEN conjunct2, rule_format,
      THEN conjunct2, THEN conjunct2, THEN conjunct2]
  have m: "g_attention_mask item = below_half (gen_visibility 8 False 5)"
    and cl: "g_context_length item = 5"
    by (simp_all add: item_def)
  have e1: "\<not> below_half (gen_visibility 8 False 5) ! 0 ! 3"
    using ge [of 0 3] by (simp add: m cl)
  have e2: "below_half (gen_visibility 8 False 5) ! 0 ! 5"
    using ge [of 0 5] by (simp add: m cl)
  note ce = t [THEN conjunct2, rule_format, OF conjI [OF c conjI [OF k b]]]
  from ce obtain mask where
    d: "snd (snd (process_data batch)) ! 0 = [mask]"
    and l0: "length mask = length (s_attention_mask ([example_multi_sample] ! 0))
               + (length_to_pad [example_multi_sample]
                  - length (s_token ([example_multi_sample] ! 0)))"
    and en0: "\<forall>r<length mask. \<forall>c<length mask.
        length (mask ! r) = length mask
        \<and> (mask ! r ! c \<longleftrightarrow>
            \<not> (r < length (s_attention_mask ([example_multi_sample] ! 0))
               \<and> c < length (s_attention_mask ([example_multi_sample] ! 0))
               \<and> s_attention_mask ([example_multi_sample] ! 0) ! r ! c = 1))"
    by blast
  have l: "length mask = 32"
    using l0 by (simp add: vis tok pad)
  note en = en0 [rule_format, THEN conjunct2]
  have m1: "\<not> mask ! 3 ! 0" using en [of 3 0] by (simp add: l vis)
  have m2: "\<not> mask ! 4 ! 3" using en [of 4 3] by (simp add: l vis)
  have m3: "mask ! 3 ! 4" using en [of 3 4] by (simp add: l vis)
  have m4: "mask ! 5 ! 3" using en [of 5 3] by (simp add: l vis)
  have m5: "mask ! 6 ! 0" using en [of 6 0] by (simp add: l vis)
  have ex: "\<exists>mask. snd (snd (process_data (projr (collate_fn False [example_multi_sample])))) ! 0
                = [mask]
        \<and> length mask = 32
        \<and> \<not> mask ! 3 ! 0 \<and> \<not> mask ! 4 ! 3 \<and> mask ! 3 ! 4 \<and> mask ! 5 ! 3 \<and> mask ! 6 ! 0"
    using d l m1 m2 m3 m4 m5 unfolding batch_def by blast
  show ?thesis
    using g [unfolded item_def] e1 e2 n b ex by (intro conjI)
qed

section \<open>The visibility matrix of non-empty choices\<close>

lemma ones_nth: "i < d \<Longrightarrow> j < d \<Longrightarrow> ones d d ! i ! j = 1"
  by (simp add: ones_def)

lemma block_diag2_nth:
  assumes a: "is_square n a" and b: "is_square k b" and i: "i < n + k" and j: "j < n + k"
  shows "block_diag2 a b ! i ! j =
     (if i < n then (if j < n then a ! i ! j else 0)
      else (if j < n then 0 else b ! (i - n) ! (j - n)))"
proof (cases "i < n")
  case True
  have row: "block_diag2 a b ! i = a ! i @ replicate k 0"
    using True a is_square_ncols [OF b] by (simp add: block_diag2_def nth_append is_square_def)
  show ?thesis
    using True j is_square_row [OF a True] by (simp add: row nth_append)
next
  case False
  have la: "length a = n" using a by (simp add: is_square_def)
  have ik: "i - n < k" using False i by simp
  have row: "block_diag2 a b ! i = replicate n 0 @ b ! (i - n)"
    using False ik b la is_square_ncols [OF a]
    by (simp add: block_diag2_def nth_append is_square_def)
  show ?thesis
    using False j by (simp add: row nth_append)
qed

lemma tril_blocks_nth:
  "i < sum_list ns \<Longrightarrow> j < sum_list ns \<Longrightarrow>
   block_diag (map tril_ones ns) ! i ! j = tril_blocks_entry ns i j"
proof (induction ns arbitrary: i j)
  case Nil
  then show ?case by simp
next
  case (Cons n ns)
  have i: "i < n + sum_list ns" and j: "j < n + sum_list ns"
    using Cons.prems by simp_all
  note e = block_diag2_nth [OF is_square_tril [of n] is_square_tril_blocks [of ns] i j]
  show ?case
  proof (cases "i < n")
    case True
    then show ?thesis using e by (simp add: tril_ones_nth)
  next
    case False
    show ?thesis
    proof (cases "j < n")
      case True
      then show ?thesis using False e by simp
    next
      case jn: False
      have "i - n < sum_list ns" "j - n < sum_list ns"
        using False jn i j by simp_all
      then show ?thesis
        using False jn e Cons.IH by simp
    qed
  qed
qed

lemma choice_loop_multi:
  "\<forall>c\<in>set cs. c \<noteq> [] \<Longrightarrow>
   choice_loop tk bf un mp False cs st =
     \<lparr>st_token = st_token st @ concat (map (\<lambda>c. get_command tk SOP # butlast c) cs),
      st_position_id = st_position_id st @
        concat (map (\<lambda>c. if bf \<or> \<not> un then replicate (length c) (int mp)
                           else arange mp (mp + length c)) cs),
      st_choice_target_id = st_choice_target_id st @ spans (length (st_token st)) (map length cs),
      st_attention_mask = st_attention_mask st @ map tril_ones (map length cs)\<rparr>"
proof (induction cs arbitrary: st)
  case Nil
  then show ?case by simp
next
  case (Cons c cs)
  obtain x xs where c: "c = x # xs" using Cons.prems by (cases c) auto
  have ne: "\<forall>c\<in>set cs. c \<noteq> []" using Cons.prems by simp
  have len: "length (st_token st @ [get_command tk SOP] @ butlast c) = length (st_token st) + length c"
    by (simp add: c)
  show ?case
    using len by (simp add: Let_def Cons.IH [OF ne] choice_step_def)
qed

lemma choice_loop_processed:
  "choice_loop tk bf un mp single cs st = choice_loop tk bf un mp False (processed single cs) st"
  by (cases single) (simp_all add: processed_def choice_loop_single)

lemma processed_nonempty:
  "\<forall>c\<in>set cs. c \<noteq> [] \<Longrightarrow> \<forall>c\<in>set (processed single cs). c \<noteq> []"
  by (auto simp: processed_def dest: in_set_takeD)

lemma length_concat_choice_tokens:
  "\<forall>c\<in>set cs. c \<noteq> [] \<Longrightarrow>
   length (concat (map (\<lambda>c. sop # butlast c) cs)) = sum_list (map length cs)"
proof (induction cs)
  case Nil
  then show ?case by simp
next
  case (Cons c cs)
  obtain x xs where c: "c = x # xs" using Cons.prems by (cases c) auto
  show ?case using Cons by (simp add: c)
qed

lemma length_concat_choice_positions:
  "length (concat (map (\<lambda>c. if b then replicate (length c) v
                             else arange mp (mp + length c)) cs))
     = sum_list (map length cs)"
  by (induction cs) (simp_all add: length_arange)

lemma mc_prefix_cases:
  "mc_prefix tk text = Inr (token, position_id, mask_position) \<Longrightarrow>
   length token = mc_division tk text \<and> length position_id = mc_division tk text"
  by (auto simp: mc_division_def mc_prefix_def Let_def length_arange
      split: if_splits option.splits)

lemma build_Inr_fields:
  assumes ok: "build_multiple_choice_sample tk text choices single un = Inr sample"
    and ne: "\<forall>c\<in>set choices. c \<noteq> []"
  shows "\<exists>pre. length pre = mc_division tk text
           \<and> s_token sample =
               pre @ concat (map (\<lambda>c. get_command tk SOP # butlast c) (processed single choices))"
    and "length (s_position_id sample)
           = mc_division tk text + sum_list (map length (processed single choices))"
    and "s_attention_mask sample =
           mc_visibility
             (ones (mc_division tk text) (mc_division tk text)
              # map tril_ones (map length (processed single choices)))
             (mc_division tk text + sum_list (map length (processed single choices)))
             (mc_division tk text)"
    and "target_list (s_choice_target_ids sample)
           = spans (mc_division tk text) (map length (processed single choices))"
proof -
  let ?P = "processed single choices"
  let ?d = "mc_division tk text"
  from ok obtain token position_id mask_position where
    pre: "mc_prefix tk text = Inr (token, position_id, mask_position)"
    by (cases "mc_prefix tk text") (auto simp: build_multiple_choice_sample_def)
  have lt: "length token = ?d" and lp: "length position_id = ?d"
    using mc_prefix_cases [OF pre] by simp_all
  define st where "st = choice_loop tk (get_command tk MASK \<in> set text) un mask_position single
      choices \<lparr>st_token = token, st_position_id = position_id, st_choice_target_id = [],
               st_attention_mask = [ones (length token) (length token)]\<rparr>"
  have neP: "\<forall>c\<in>set ?P. c \<noteq> []"
    using ne by (rule processed_nonempty)
  have st_eq: "st =
     \<lparr>st_token = token @ concat (map (\<lambda>c. get_command tk SOP # butlast c) ?P),
      st_position_id = position_id @
        concat (map (\<lambda>c. if (get_command tk MASK \<in> set text) \<or> \<not> un
                           then replicate (length c) (int mask_position)
                           else arange mask_position (mask_position + length c)) ?P),
      st_choice_target_id = spans ?d (map length ?P),
      st_attention_mask = ones ?d ?d # map tril_ones (map length ?P)\<rparr>"
    unfolding st_def choice_loop_processed [of tk _ un mask_position single choices]
    by (simp add: choice_loop_multi [OF neP] lt)
  have tok_len: "length (st_token st) = ?d + sum_list (map length ?P)"
    by (simp add: st_eq lt length_concat_choice_tokens [OF neP])
  have b: "build_multiple_choice_sample tk text choices single un =
     (case (if single then squeeze_choices choices else Inr (ChoiceNested choices)) of
        Inl e \<Rightarrow> Inl e
      | Inr choices' \<Rightarrow>
          (case (if single
                 then (case st_choice_target_id st of
                         [] \<Rightarrow> Inl IndexError
                       | t # _ \<Rightarrow> Inr (SingleTarget t))
                 else Inr (MultiTarget (st_choice_target_id st))) of
             Inl e \<Rightarrow> Inl e
           | Inr targets \<Rightarrow>
               Inr \<lparr>s_token = st_token st,
                    s_position_id = st_position_id st,
                    s_attention_mask =
                      mc_visibility (st_attention_mask st) (length (st_token st)) (length token),
                    s_choices = choices',
                    s_choice_target_ids = targets\<rparr>))"
    by (simp only: build_multiple_choice_sample_def pre Let_def st_def sum.case prod.case)
  from ok [unfolded b] have sample:
    "s_token sample = st_token st"
    "s_position_id sample = st_position_id st"
    "s_attention_mask sample =
       mc_visibility (st_attention_mask st) (length (st_token st)) (length token)"
    "target_list (s_choice_target_ids sample) = st_choice_target_id st
       \<or> (single \<and> (\<exists>t ts. st_choice_target_id st = t # ts
             \<and> target_list (s_choice_target_ids sample) = [t]))"
    by (auto split: if_splits sum.splits list.splits)
  show "\<exists>pre. length pre = ?d
           \<and> s_token sample = pre @ concat (map (\<lambda>c. get_command tk SOP # butlast c) ?P)"
    using sample(1) lt by (intro exI [of _ token]) (simp add: st_eq)
  show "length (s_position_id sample) = ?d + sum_list (map length ?P)"
    by (simp add: sample(2) st_eq lp length_concat_choice_positions)
  show "s_attention_mask sample =
           mc_visibility (ones ?d ?d # map tril_ones (map length ?P))
             (?d + sum_list (map length ?P)) ?d"
    using sample(3) tok_len lt by (simp add: st_eq)
  show "target_list (s_choice_target_ids sample) = spans ?d (map length ?P)"
  proof (cases single)
    case False
    then show ?thesis using sample(4) by (simp add: st_eq)
  next
    case True
    from sample(4) show ?thesis
    proof
      assume "target_list (s_choice_target_ids sample) = st_choice_target_id st"
      then show ?thesis by (simp add: st_eq)
    next
      assume "single \<and> (\<exists>t ts. st_choice_target_id st = t # ts
             \<and> target_list (s_choice_target_ids sample) = [t])"
      then obtain t ts where t: "st_choice_target_id st = t # ts"
        and tl: "target_list (s_choice_target_ids sample) = [t]" by blast
      have "length (spans ?d (map length ?P)) \<le> 1"
        using True by (cases choices) (simp_all add: processed_def)
      then have "ts = []" using t by (simp add: st_eq)
      then show ?thesis using t tl by (simp add: st_eq)
    qed
  qed
qed

lemma mc_visibility_eq:
  "mc_visibility (ones d d # map tril_ones ns) (d + sum_list ns) d =
     set_block (block_diag (ones d d # map tril_ones ns)) (d + sum_list ns) d"
  by (rule mc_visibility_long) simp

lemma is_square_mc_visibility:
  "is_square (d + sum_list ns) (mc_visibility (ones d d # map tril_ones ns) (d + sum_list ns) d)"
  unfolding mc_visibility_eq by (rule is_square_set_block [OF is_square_mc_blocks])

lemma mc_visibility_nth:
  assumes i: "i < d + sum_list ns" and j: "j < d + sum_list ns"
  shows "mc_visibility (ones d d # map tril_ones ns) (d + sum_list ns) d ! i ! j =
     (if j < d then 1 else if i < d then 0 else tril_blocks_entry ns (i - d) (j - d))"
proof -
  define bd where "bd = block_diag (ones d d # map tril_ones ns)"
  have sq: "is_square (d + sum_list ns) bd"
    unfolding bd_def by (rule is_square_mc_blocks)
  have l: "i < length bd" using sq i by (simp add: is_square_def)
  have r: "j < length (bd ! i)" using is_square_row [OF sq i] j by simp
  have e: "bd ! i ! j =
     (if i < d then (if j < d then ones d d ! i ! j else 0)
      else (if j < d then 0 else block_diag (map tril_ones ns) ! (i - d) ! (j - d)))"
    unfolding bd_def
    using block_diag2_nth [OF is_square_ones [of d] is_square_tril_blocks [of ns] i j] by simp
  have v: "mc_visibility (ones d d # map tril_ones ns) (d + sum_list ns) d ! i ! j =
      (if i < d + sum_list ns \<and> j < d then 1 else bd ! i ! j)"
    unfolding mc_visibility_eq bd_def [symmetric] by (rule set_block_nth [OF l r])
  show ?thesis
  proof (cases "j < d")
    case True
    then show ?thesis using i by (simp add: v)
  next
    case False
    show ?thesis
    proof (cases "i < d")
      case True
      then show ?thesis using False by (simp add: v e)
    next
      case id: False
      have "i - d < sum_list ns" "j - d < sum_list ns" using id False i j by simp_all
      then show ?thesis
        using id False by (simp add: v e tril_blocks_nth)
    qed
  qed
qed

lemma build_well_shaped:
  assumes ok: "build_multiple_choice_sample tk text choices single un = Inr sample"
    and ne: "\<forall>c\<in>set choices. c \<noteq> []"
  shows "well_shaped sample"
proof -
  let ?P = "processed single choices"
  let ?N = "mc_division tk text + sum_list (map length ?P)"
  note f = build_Inr_fields [OF ok ne]
  have neP: "\<forall>c\<in>set ?P. c \<noteq> []" using ne by (rule processed_nonempty)
  from f(1) obtain pre where pre: "length pre = mc_division tk text"
    and tok: "s_token sample = pre @ concat (map (\<lambda>c. get_command tk SOP # butlast c) ?P)"
    by blast
  have lt: "length (s_token sample) = ?N"
    by (simp add: tok pre length_concat_choice_tokens [OF neP])
  have sq: "is_square ?N (s_attention_mask sample)"
    unfolding f(3) by (rule is_square_mc_visibility)
  show ?thesis
    using lt f(2) sq by (simp add: well_shaped_def is_square_def)
qed

lemma length_spans: "length (spans off ns) = length ns"
  by (induction ns arbitrary: off) simp_all

lemma concat_spans: "concat (spans off ns) = [off..<off + sum_list ns]"
proof (induction ns arbitrary: off)
  case Nil
  then show ?case by simp
next
  case (Cons n ns)
  have "[off..<off + n + sum_list ns] = [off..<off + n] @ [off + n..<off + n + sum_list ns]"
    by (rule upt_add_eq_append) simp
  then show ?case by (simp add: Cons.IH add.assoc)
qed

lemma spans_entry:
  "i < length ns \<Longrightarrow> j < length ns \<Longrightarrow>
   r \<in> set (spans off ns ! i) \<Longrightarrow> c \<in> set (spans off ns ! j) \<Longrightarrow>
   off \<le> r \<and> off \<le> c \<and> r < off + sum_list ns \<and> c < off + sum_list ns
   \<and> tril_blocks_entry ns (r - off) (c - off) = (if i = j \<and> c \<le> r then 1 else 0)"
proof (induction ns arbitrary: off i j)
  case Nil
  then show ?case by simp
next
  case (Cons n ns)
  show ?case
  proof (cases i)
    case i0: 0
    have r: "off \<le> r" "r < off + n" using Cons.prems(3) i0 by simp_all
    show ?thesis
    proof (cases j)
      case 0
      have c: "off \<le> c" "c < off + n" using Cons.prems(4) 0 by simp_all
      show ?thesis using r c i0 0 by auto
    next
      case (Suc j')
      have j': "j' < length ns" using Cons.prems(2) Suc by simp
      have cm: "c \<in> set (spans (off + n) ns ! j')" using Cons.prems(4) Suc by simp
      have "concat (spans (off + n) ns) = [off + n..<off + n + sum_list ns]"
        by (rule concat_spans)
      moreover have "c \<in> set (concat (spans (off + n) ns))"
        using cm j' by (auto simp: length_spans intro!: bexI [of _ "spans (off + n) ns ! j'"])
      ultimately have c: "off + n \<le> c" "c < off + n + sum_list ns" by simp_all
      show ?thesis using r c i0 Suc by auto
    qed
  next
    case (Suc i')
    have i': "i' < length ns" using Cons.prems(1) Suc by simp
    have rm: "r \<in> set (spans (off + n) ns ! i')" using Cons.prems(3) Suc by simp
    have cs: "concat (spans (off + n) ns) = [off + n..<off + n + sum_list ns]"
      by (rule concat_spans)
    have "r \<in> set (concat (spans (off + n) ns))"
      using rm i' by (auto simp: length_spans intro!: bexI [of _ "spans (off + n) ns ! i'"])
    then have r: "off + n \<le> r" "r < off + n + sum_list ns" using cs by simp_all
    show ?thesis
    proof (cases j)
      case 0
      have c: "off \<le> c" "c < off + n" using Cons.prems(4) 0 by simp_all
      show ?thesis using r c Suc 0 by auto
    next
      case sj: (Suc j')
      have j': "j' < length ns" using Cons.prems(2) sj by simp
      have cm: "c \<in> set (spans (off + n) ns ! j')" using Cons.prems(4) sj by simp
      note ih = Cons.IH [OF i' j' rm cm]
      have e: "r - off - n = r - (off + n)" "c - off - n = c - (off + n)" by simp_all
      show ?thesis using ih Suc sj by (auto simp: e)
    qed
  qed
qed

text \<open>
  Choices that are all non-empty are encoded block by block: the arrays of the encoding
  have one length, the target ranges of the choices are consecutive and cover the
  sequence from \<open>division\<close> on, an entry with its row in one target range and its column
  in another is 0, within one range the entries form a lower triangle, and every row
  sees every column of the shared context.
\<close>

theorem choice_blocks_are_disjoint:
  assumes ok: "build_multiple_choice_sample tk text choices single unified = Inr sample"
    and ne: "\<forall>c\<in>set choices. c \<noteq> []"
  shows "well_shaped sample
     \<and> concat (target_list (s_choice_target_ids sample))
         = [mc_division tk text..<length (s_token sample)]
     \<and> (\<forall>i<length (target_list (s_choice_target_ids sample)).
         \<forall>j<length (target_list (s_choice_target_ids sample)).
         \<forall>r\<in>set (target_list (s_choice_target_ids sample) ! i).
         \<forall>c\<in>set (target_list (s_choice_target_ids sample) ! j).
           s_attention_mask sample ! r ! c = (if i = j \<and> c \<le> r then 1 else 0))
     \<and> (\<forall>r<length (s_token sample). \<forall>c<mc_division tk text.
           s_attention_mask sample ! r ! c = 1)"
proof -
  let ?d = "mc_division tk text"
  define ns where "ns = map length (processed single choices)"
  let ?T = "target_list (s_choice_target_ids sample)"
  note f = build_Inr_fields [OF ok ne]
  have ws: "well_shaped sample" using ok ne by (rule build_well_shaped)
  have neP: "\<forall>c\<in>set (processed single choices). c \<noteq> []"
    using ne by (rule processed_nonempty)
  from f(1) obtain pre where pre: "length pre = ?d"
    and tok: "s_token sample =
      pre @ concat (map (\<lambda>c. get_command tk SOP # butlast c) (processed single choices))"
    by blast
  have lt: "length (s_token sample) = ?d + sum_list ns"
    by (simp add: tok pre ns_def length_concat_choice_tokens [OF neP])
  have T: "?T = spans ?d ns" using f(4) by (simp add: ns_def)
  have m: "s_attention_mask sample =
      mc_visibility (ones ?d ?d # map tril_ones ns) (?d + sum_list ns) ?d"
    using f(3) by (simp add: ns_def)
  have cc: "concat ?T = [?d..<length (s_token sample)]"
    by (simp add: T concat_spans lt)
  have blocks: "s_attention_mask sample ! r ! c = (if i = j \<and> c \<le> r then 1 else 0)"
    if i: "i < length ?T" and j: "j < length ?T" and r: "r \<in> set (?T ! i)"
      and c: "c \<in> set (?T ! j)" for i j r c
  proof -
    have i': "i < length ns" and j': "j < length ns"
      using i j by (simp_all add: T length_spans)
    have r': "r \<in> set (spans ?d ns ! i)" and c': "c \<in> set (spans ?d ns ! j)"
      using r c by (simp_all add: T)
    note e = spans_entry [OF i' j' r' c']
    have rb: "r < ?d + sum_list ns" and cb: "c < ?d + sum_list ns"
      and rd: "\<not> r < ?d" and cd: "\<not> c < ?d"
      using e by simp_all
    show ?thesis
      unfolding m mc_visibility_nth [OF rb cb] using rd cd e by simp
  qed
  have ctx: "s_attention_mask sample ! r ! c = 1"
    if r: "r < length (s_token sample)" and c: "c < ?d" for r c
  proof -
    have rb: "r < ?d + sum_list ns" using r lt by simp
    have cb: "c < ?d + sum_list ns" using c by simp
    show ?thesis
      unfolding m mc_visibility_nth [OF rb cb] using c by simp
  qed
  show ?thesis
    using ws cc blocks ctx by (intro conjI allI impI ballI)
qed

theorem choice_blocks_are_disjoint_witness:
  "build_multiple_choice_sample example_tokenizer [1, 2] [[5, 6], [7]] False False =
     Inr example_multi_sample
   \<and> [] \<notin> set [[5, 6], [7 :: int]]
   \<and> s_token example_multi_sample = [1, 2, 150000, 150004, 5, 150004]
   \<and> target_list (s_choice_target_ids example_multi_sample) = [[3, 4], [5]]
   \<and> well_shaped example_multi_sample
   \<and> s_attention_mask example_multi_sample ! 4 ! 5 = 0
   \<and> s_attention_mask example_multi_sample ! 5 ! 3 = 0
   \<and> s_attention_mask example_multi_sample ! 5 ! 4 = 0
   \<and> s_attention_mask example_multi_sample ! 4 ! 3 = 1
   \<and> s_attention_mask example_multi_sample ! 3 ! 4 = 0
   \<and> s_attention_mask example_multi_sample ! 5 ! 0 = 1"
proof -
  have ok: "build_multiple_choice_sample example_tokenizer [1, 2] [[5, 6], [7]] False False =
     Inr example_multi_sample"
    by code_simp
  have n: "[] \<notin> set [[5, 6], [7 :: int]]"
    by simp
  have ne: "\<forall>c\<in>set [[5, 6], [7 :: int]]. c \<noteq> []"
    by simp
  have tok: "s_token example_multi_sample = [1, 2, 150000, 150004, 5, 150004]"
    by code_simp
  have T: "target_list (s_choice_target_ids example_multi_sample) = [[3, 4], [5]]"
    by code_simp
  have d: "mc_division example_tokenizer [1, 2] = 3"
    by code_simp
  note t = choice_blocks_are_disjoint [OF ok ne]
  note ws = t [THEN conjunct1]
  note bl = t [THEN conjunct2, THEN conjunct2, THEN conjunct1, rule_format]
  note cx = t [THEN conjunct2, THEN conjunct2, THEN conjunct2, rule_format]
  have e1: "s_attention_mask example_multi_sample ! 4 ! 5 = 0"
    using bl [of 0 1 4 5] by (simp add: T)
  have e2: "s_attention_mask example_multi_sample ! 5 ! 3 = 0"
    using bl [of 1 0 5 3] by (simp add: T)
  have e3: "s_attention_mask example_multi_sample ! 5 ! 4 = 0"
    using bl [of 1 0 5 4] by (simp add: T)
  have e4: "s_attention_mask example_multi_sample ! 4 ! 3 = 1"
    using bl [of 0 0 4 3] by (simp add: T)
  have e5: "s_attention_mask example_multi_sample ! 3 ! 4 = 0"
    using bl [of 0 0 3 4] by (simp add: T)
  have e6: "s_attention_mask example_multi_sample ! 5 ! 0 = 1"
    using cx [of 5 0] by (simp add: tok d)
  show ?thesis
    by (intro conjI ok n tok T ws e1 e2 e3 e4 e5 e6)
qed

section \<open>Collation of encoded samples\<close>

lemma fold_max_in: "fold max xs (a :: nat) \<in> insert a (set xs)"
proof (induction xs arbitrary: a)
  case Nil
  then show ?case by simp
next
  case (Cons x xs)
  have "fold max xs (max x a) \<in> insert (max x a) (set xs)" by (rule Cons.IH)
  moreover have "max x a = x \<or> max x a = a" by (simp add: max_def)
  ultimately show ?case by auto
qed

lemma max_list_mem: "xs \<noteq> [] \<Longrightarrow> max_list xs \<in> set xs"
  using fold_max_in by (cases xs) auto

text \<open>
  Encodings of choices that are all non-empty are padded to the tile: a non-empty
  list of them collates; the padded length is the least multiple of 32 that is at least
  the longest token sequence; tokens and position ids are followed by zeros up to that
  length; and every mask is square of that length, False exactly where the visibility
  matrix of the sample holds 1 and True in the padding. Encodings of lengths 10 and 35
  are padded to 64.
\<close>

theorem collate_pads_encoded_samples:
  assumes ne: "samples \<noteq> []"
    and enc: "\<forall>s\<in>set samples. \<exists>tk text choices single unified.
        build_multiple_choice_sample tk text choices single unified = Inr s
        \<and> (\<forall>c\<in>set choices. c \<noteq> [])"
  shows "\<exists>batch. collate_fn flag samples = Inr batch
     \<and> 32 dvd length_to_pad samples
     \<and> (\<forall>s\<in>set samples. length (s_token s) \<le> length_to_pad samples)
     \<and> (\<exists>s\<in>set samples. length_to_pad samples < length (s_token s) + 32)
     \<and> length (b_tokens batch) = length samples
     \<and> length (b_position_ids batch) = length samples
     \<and> length (b_attention_mask batch) = length samples
     \<and> (\<forall>k<length samples.
          b_tokens batch ! k =
            s_token (samples ! k)
              @ replicate (length_to_pad samples - length (s_token (samples ! k))) 0
        \<and> length (b_tokens batch ! k) = length_to_pad samples
        \<and> b_position_ids batch ! k =
            s_position_id (samples ! k)
              @ replicate (length_to_pad samples - length (s_token (samples ! k))) 0
        \<and> length (b_position_ids batch ! k) = length_to_pad samples
        \<and> length (b_attention_mask batch ! k) = length_to_pad samples
        \<and> (\<forall>r<length_to_pad samples. \<forall>c<length_to_pad samples.
              length (b_attention_mask batch ! k ! r) = length_to_pad samples
            \<and> (b_attention_mask batch ! k ! r ! c \<longleftrightarrow>
                 \<not> (r < length (s_token (samples ! k)) \<and> c < length (s_token (samples ! k))
                    \<and> s_attention_mask (samples ! k) ! r ! c = 1))))"
proof -
  let ?L = "length_to_pad samples"
  have ws: "well_shaped s" if "s \<in> set samples" for s
  proof -
    from enc that obtain tk inp choices single unified where
      b: "build_multiple_choice_sample tk inp choices single unified = Inr s"
      and n: "\<forall>c\<in>set choices. c \<noteq> []"
      by blast
    from b n show ?thesis by (rule build_well_shaped)
  qed
  have bin: "binary (s_attention_mask s)" if "s \<in> set samples" for s
  proof -
    from enc that obtain tk inp choices single unified where
      b: "build_multiple_choice_sample tk inp choices single unified = Inr s"
      by blast
    from b show ?thesis by (rule build_mask_facts(2))
  qed
  define batch where "batch =
     \<lparr>b_tokens =
        map (\<lambda>s. s_token s @ replicate (?L - length (s_token s)) 0) samples,
      b_position_ids =
        map (\<lambda>s. s_position_id s @ replicate (?L - length (s_position_id s)) 0) samples,
      b_attention_mask = map (\<lambda>s. below_half (padded_mask samples s)) samples,
      b_choices = map s_choices samples,
      b_choice_target_ids = map s_choice_target_ids samples,
      b_is_single_token = flag\<rparr>"
  have c: "collate_fn flag samples = Inr batch"
    unfolding batch_def by (rule collate_fn_well_shaped [OF ne ws])
  have dv: "32 dvd ?L" by (rule length_to_pad_bounds(1))
  have up: "\<forall>s\<in>set samples. length (s_token s) \<le> ?L"
    by (intro ballI) (rule length_to_pad_ge)
  have lo: "\<exists>s\<in>set samples. ?L < length (s_token s) + 32"
  proof -
    have "map (\<lambda>spl. length (s_token spl)) samples \<noteq> []" using ne by simp
    from max_list_mem [OF this] obtain s where s: "s \<in> set samples"
      and m: "max_list (map (\<lambda>spl. length (s_token spl)) samples) = length (s_token s)"
      by auto
    show ?thesis
      using length_to_pad_bounds(3) [of samples] s by (auto simp: m)
  qed
  have l1: "length (b_tokens batch) = length samples"
    and l2: "length (b_position_ids batch) = length samples"
    and l3: "length (b_attention_mask batch) = length samples"
    by (simp_all add: batch_def)
  have each: "b_tokens batch ! k =
            s_token (samples ! k) @ replicate (?L - length (s_token (samples ! k))) 0
        \<and> length (b_tokens batch ! k) = ?L
        \<and> b_position_ids batch ! k =
            s_position_id (samples ! k) @ replicate (?L - length (s_token (samples ! k))) 0
        \<and> length (b_position_ids batch ! k) = ?L
        \<and> length (b_attention_mask batch ! k) = ?L
        \<and> (\<forall>r<?L. \<forall>c<?L.
              length (b_attention_mask batch ! k ! r) = ?L
            \<and> (b_attention_mask batch ! k ! r ! c \<longleftrightarrow>
                 \<not> (r < length (s_token (samples ! k)) \<and> c < length (s_token (samples ! k))
                    \<and> s_attention_mask (samples ! k) ! r ! c = 1)))"
    if k: "k < length samples" for k
  proof -
    let ?s = "samples ! k"
    let ?n = "length (s_token ?s)"
    let ?vis = "s_attention_mask ?s"
    have mem: "?s \<in> set samples" using k by simp
    have le: "?n \<le> ?L" using mem by (rule length_to_pad_ge)
    note w = ws [OF mem]
    have lp: "length (s_position_id ?s) = ?n" using w by (simp add: well_shaped_def)
    have sq: "is_square ?n ?vis" using w by (simp add: well_shaped_def is_square_def)
    have n: "?n + (?L - ?n) = ?L" using le by simp
    have sqp: "is_square ?L (pad2 (?L - ?n) ?vis)"
      using is_square_pad2 [OF sq, of "?L - ?n"] by (simp only: n)
    have lpad: "length (pad2 (?L - ?n) ?vis) = ?L"
      using sqp by (simp add: is_square_def)
    have t: "b_tokens batch ! k = s_token ?s @ replicate (?L - ?n) 0"
      using k by (simp add: batch_def)
    have p: "b_position_ids batch ! k = s_position_id ?s @ replicate (?L - ?n) 0"
      using k by (simp add: batch_def lp)
    have a: "b_attention_mask batch ! k = below_half (pad2 (?L - ?n) ?vis)"
      using k by (simp add: batch_def padded_mask_def)
    have ent: "length (b_attention_mask batch ! k ! r) = ?L
            \<and> (b_attention_mask batch ! k ! r ! c \<longleftrightarrow>
                 \<not> (r < ?n \<and> c < ?n \<and> ?vis ! r ! c = 1))"
      if r: "r < ?L" and c: "c < ?L" for r c
    proof -
      have rl: "r < length (pad2 (?L - ?n) ?vis)" using r lpad by simp
      have row: "length (pad2 (?L - ?n) ?vis ! r) = ?L" by (rule is_square_row [OF sqp r])
      have cl: "c < length (pad2 (?L - ?n) ?vis ! r)" using c row by simp
      have r': "r < ?n + (?L - ?n)" and c': "c < ?n + (?L - ?n)" using r c n by simp_all
      have e: "pad2 (?L - ?n) ?vis ! r ! c = (if r < ?n \<and> c < ?n then ?vis ! r ! c else 0)"
        by (rule pad2_nth [OF sq r' c'])
      have d: "b_attention_mask batch ! k ! r ! c \<longleftrightarrow> pad2 (?L - ?n) ?vis ! r ! c \<le> 0"
        unfolding a by (rule below_half_nth [OF rl cl])
      have lr: "length (b_attention_mask batch ! k ! r) = ?L"
        unfolding a using length_below_half_row [OF rl] row by simp
      show ?thesis
      proof (cases "r < ?n \<and> c < ?n")
        case True
        have "r < length ?vis" using True sq by (simp add: is_square_def)
        moreover have "c < length (?vis ! r)" using True is_square_row [OF sq, of r] by simp
        ultimately have "?vis ! r ! c \<in> {0, 1}" by (rule binary_nth [OF bin [OF mem]])
        then show ?thesis using True lr d e by auto
      next
        case False
        then show ?thesis using lr d e by auto
      qed
    qed
    show ?thesis
    proof (intro conjI allI impI)
      show "b_tokens batch ! k = s_token ?s @ replicate (?L - ?n) 0" by (rule t)
      show "length (b_tokens batch ! k) = ?L" using le by (simp add: t)
      show "b_position_ids batch ! k = s_position_id ?s @ replicate (?L - ?n) 0" by (rule p)
      show "length (b_position_ids batch ! k) = ?L" using le by (simp add: p lp)
      show "length (b_attention_mask batch ! k) = ?L" by (simp add: a length_below_half lpad)
    next
      fix r c assume "r < ?L" "c < ?L"
      from ent [OF this] show "length (b_attention_mask batch ! k ! r) = ?L" by simp
    next
      fix r c assume "r < ?L" "c < ?L"
      from ent [OF this]
      show "b_attention_mask batch ! k ! r ! c \<longleftrightarrow>
          \<not> (r < ?n \<and> c < ?n \<and> ?vis ! r ! c = 1)" by simp
    qed
  qed
  show ?thesis
  proof (intro exI [of _ batch] conjI)
    show "collate_fn flag samples = Inr batch" by (rule c)
    show "32 dvd ?L" by (rule dv)
    show "\<forall>s\<in>set samples. length (s_token s) \<le> ?L" by (rule up)
    show "\<exists>s\<in>set samples. ?L < length (s_token s) + 32" by (rule lo)
    show "length (b_tokens batch) = length samples" by (rule l1)
    show "length (b_position_ids batch) = length samples" by (rule l2)
    show "length (b_attention_mask batch) = length samples" by (rule l3)
  qed (intro allI impI, rule each)
qed

theorem collate_pads_encoded_samples_witness:
  "[example_sample 8, example_sample 33] \<noteq> []
   \<and> build_multiple_choice_sample example_tokenizer (replicate 8 7) [[5], [9]] True False =
       Inr (example_sample 8)
   \<and> build_multiple_choice_sample example_tokenizer (replicate 33 7) [[5], [9]] True False =
       Inr (example_sample 33)
   \<and> [] \<notin> set [[5], [9 :: int]]
   \<and> length (s_token (example_sample 8)) = 10
   \<and> length (s_token (example_sample 33)) = 35
   \<and> length_to_pad [example_sample 8, example_sample 33] = 64
   \<and> (\<exists>batch. collate_fn False [example_sample 8, example_sample 33] = Inr batch
        \<and> length (b_tokens batch ! 0) = 64 \<and> length (b_tokens batch ! 1) = 64
        \<and> length (b_position_ids batch ! 0) = 64 \<and> length (b_position_ids batch ! 1) = 64
        \<and> length (b_attention_mask batch ! 0) = 64 \<and> length (b_attention_mask batch ! 1) = 64
        \<and> b_tokens batch ! 0 = s_token (example_sample 8) @ replicate 54 0
        \<and> b_position_ids batch ! 1 = s_position_id (example_sample 33) @ replicate 29 0
        \<and> \<not> b_attention_mask batch ! 0 ! 9 ! 9
        \<and> b_attention_mask batch ! 0 ! 0 ! 9
        \<and> b_attention_mask batch ! 0 ! 10 ! 0
        \<and> b_attention_mask batch ! 0 ! 63 ! 63)"
proof -
  let ?a = "example_sample 8" and ?b = "example_sample 33"
  have ne: "[?a, ?b] \<noteq> []"
    by simp
  have ba: "build_multiple_choice_sample example_tokenizer (replicate 8 7) [[5], [9]] True False
      = Inr ?a"
    by code_simp
  have bb: "build_multiple_choice_sample example_tokenizer (replicate 33 7) [[5], [9]] True False
      = Inr ?b"
    by code_simp
  have n: "[] \<notin> set [[5], [9 :: int]]"
    by simp
  have nc: "\<forall>c\<in>set [[5], [9 :: int]]. c \<noteq> []"
    by simp
  have la: "length (s_token ?a) = 10"
    by code_simp
  have lb: "length (s_token ?b) = 35"
    by code_simp
  have L: "length_to_pad [?a, ?b] = 64"
    by (rule length_to_pad_example [OF la lb])
  have v1: "s_attention_mask ?a ! 9 ! 9 = 1"
    by code_simp
  have v2: "s_attention_mask ?a ! 0 ! 9 = 0"
    by code_simp
  have enc: "\<forall>s\<in>set [?a, ?b]. \<exists>tk inp choices single unified.
        build_multiple_choice_sample tk inp choices single unified = Inr s
        \<and> (\<forall>c\<in>set choices. c \<noteq> [])"
  proof
    fix s assume "s \<in> set [?a, ?b]"
    then consider "s = ?a" | "s = ?b" by auto
    then show "\<exists>tk inp choices single unified.
        build_multiple_choice_sample tk inp choices single unified = Inr s
        \<and> (\<forall>c\<in>set choices. c \<noteq> [])"
    proof cases
      case 1
      have "build_multiple_choice_sample example_tokenizer (replicate 8 7) [[5], [9]] True False
          = Inr s \<and> (\<forall>c\<in>set [[5], [9 :: int]]. c \<noteq> [])"
        unfolding 1 by (rule conjI [OF ba nc])
      then show ?thesis by blast
    next
      case 2
      have "build_multiple_choice_sample example_tokenizer (replicate 33 7) [[5], [9]] True False
          = Inr s \<and> (\<forall>c\<in>set [[5], [9 :: int]]. c \<noteq> [])"
        unfolding 2 by (rule conjI [OF bb nc])
      then show ?thesis by blast
    qed
  qed
  from collate_pads_encoded_samples [OF ne enc, of False]
  obtain batch where c: "collate_fn False [?a, ?b] = Inr batch"
    and each: "\<forall>k<length [?a, ?b].
          b_tokens batch ! k =
            s_token ([?a, ?b] ! k)
              @ replicate (length_to_pad [?a, ?b] - length (s_token ([?a, ?b] ! k))) 0
        \<and> length (b_tokens batch ! k) = length_to_pad [?a, ?b]
        \<and> b_position_ids batch ! k =
            s_position_id ([?a, ?b] ! k)
              @ replicate (length_to_pad [?a, ?b] - length (s_token ([?a, ?b] ! k))) 0
        \<and> length (b_position_ids batch ! k) = length_to_pad [?a, ?b]
        \<and> length (b_attention_mask batch ! k) = length_to_pad [?a, ?b]
        \<and> (\<forall>r<length_to_pad [?a, ?b]. \<forall>c<length_to_pad [?a, ?b].
              length (b_attention_mask batch ! k ! r) = length_to_pad [?a, ?b]
            \<and> (b_attention_mask batch ! k ! r ! c \<longleftrightarrow>
                 \<not> (r < length (s_token ([?a, ?b] ! k)) \<and> c < length (s_token ([?a, ?b] ! k))
                    \<and> s_attention_mask ([?a, ?b] ! k) ! r ! c = 1)))"
    by blast
  have k0: "0 < length [?a, ?b]" and k1: "1 < length [?a, ?b]"
    by simp_all
  note z = each [rule_format, OF k0] and o = each [rule_format, OF k1]
  have t0: "b_tokens batch ! 0 = s_token ?a @ replicate 54 0"
    using z [THEN conjunct1] by (simp add: L la)
  have t0l: "length (b_tokens batch ! 0) = 64"
    using z [THEN conjunct2, THEN conjunct1] by (simp add: L)
  have t1l: "length (b_tokens batch ! 1) = 64"
    using o [THEN conjunct2, THEN conjunct1] by (simp add: L)
  have p1: "b_position_ids batch ! 1 = s_position_id ?b @ replicate 29 0"
    using o [THEN conjunct2, THEN conjunct2, THEN conjunct1] by (simp add: L lb)
  have p0l: "length (b_position_ids batch ! 0) = 64"
    using z [THEN conjunct2, THEN conjunct2, THEN conjunct2, THEN conjunct1] by (simp add: L)
  have p1l: "length (b_position_ids batch ! 1) = 64"
    using o [THEN conjunct2, THEN conjunct2, THEN conjunct2, THEN conjunct1] by (simp add: L)
  have a0l: "length (b_attention_mask batch ! 0) = 64"
    using z [THEN conjunct2, THEN conjunct2, THEN conjunct2, THEN conjunct2, THEN conjunct1]
    by (simp add: L)
  have a1l: "length (b_attention_mask batch ! 1) = 64"
    using o [THEN conjunct2, THEN conjunct2, THEN conjunct2, THEN conjunct2, THEN conjunct1]
    by (simp add: L)
  note en = z [THEN conjunct2, THEN conjunct2, THEN conjunct2, THEN conjunct2, THEN conjunct2,
      rule_format, THEN conjunct2]
  have m1: "\<not> b_attention_mask batch ! 0 ! 9 ! 9"
    using en [of 9 9] by (simp add: L la v1)
  have m2: "b_attention_mask batch ! 0 ! 0 ! 9"
    using en [of 0 9] by (simp add: L la v2)
  have m3: "b_attention_mask batch ! 0 ! 10 ! 0"
    using en [of 10 0] by (simp add: L la)
  have m4: "b_attention_mask batch ! 0 ! 63 ! 63"
    using en [of 63 63] by (simp add: L la)
  have ex: "\<exists>batch. collate_fn False [?a, ?b] = Inr batch
        \<and> length (b_tokens batch ! 0) = 64 \<and> length (b_tokens batch ! 1) = 64
        \<and> length (b_position_ids batch ! 0) = 64 \<and> length (b_position_ids batch ! 1) = 64
        \<and> length (b_attention_mask batch ! 0) = 64 \<and> length (b_attention_mask batch ! 1) = 64
        \<and> b_tokens batch ! 0 = s_token ?a @ replicate 54 0
        \<and> b_position_ids batch ! 1 = s_position_id ?b @ replicate 29 0
        \<and> \<not> b_attention_mask batch ! 0 ! 9 ! 9
        \<and> b_attention_mask batch ! 0 ! 0 ! 9
        \<and> b_attention_mask batch ! 0 ! 10 ! 0
        \<and> b_attention_mask batch ! 0 ! 63 ! 63"
    by (intro exI [of _ batch] conjI c t0l t1l p0l p1l a0l a1l t0 p1 m1 m2 m3 m4)
  show ?thesis
    by (intro conjI ne ba bb n la lb L ex)
qed

section \<open>Empty choices\<close>

text \<open>
  Claim C9 says that the collator pads the token, position-id and attention-mask arrays
  of every encoded sample to \<open>ceil(max_len / 32) * 32\<close>. \<^verbatim>\<open>pad_batch\<close> pads the
  position ids by their own length but the attention mask by the length of the tokens.
  The item with the choices \<open>[]\<close> and \<open>[5, 6, 7]\<close> loads (the dataset is multi-token) and
  is encoded with 7 tokens, 6 position ids and a 6 by 6 visibility matrix, since an empty
  choice adds a start-of-prediction token and nothing else. Collated, its tokens and
  position ids have length 32 and its attention mask is 31 by 31.
\<close>

theorem collate_empty_choice_mask_short:
  "init_dataset example_config example_tokenizer
     [\<lparr>r_inputs = [1, 2], r_choices = [[], [5, 6, 7]], r_label = 1\<rparr>]
     = Inr (False, [\<lparr>i_text = [1, 2], i_choices = [[], [5, 6, 7]], i_label = 1\<rparr>])
   \<and> getitem example_config example_tokenizer
         (False, [\<lparr>i_text = [1, 2], i_choices = [[], [5, 6, 7]], i_label = 1\<rparr>]) 0
     = Inr (\<lparr>s_token = [1, 2, 150000, 150004, 150004, 5, 6],
            s_position_id = [0, 1, 2, 2, 2, 2],
            s_attention_mask =
              [[1, 1, 1, 0, 0, 0], [1, 1, 1, 0, 0, 0], [1, 1, 1, 0, 0, 0],
               [1, 1, 1, 1, 0, 0], [1, 1, 1, 1, 1, 0], [1, 1, 1, 1, 1, 1]],
            s_choices = ChoiceNested [[], [5, 6, 7]],
            s_choice_target_ids = MultiTarget [[], [4, 5, 6]]\<rparr>, 1)
   \<and> \<not> isl (collate_fn False
         [\<lparr>s_token = [1, 2, 150000, 150004, 150004, 5, 6],
            s_position_id = [0, 1, 2, 2, 2, 2],
            s_attention_mask =
              [[1, 1, 1, 0, 0, 0], [1, 1, 1, 0, 0, 0], [1, 1, 1, 0, 0, 0],
               [1, 1, 1, 1, 0, 0], [1, 1, 1, 1, 1, 0], [1, 1, 1, 1, 1, 1]],
            s_choices = ChoiceNested [[], [5, 6, 7]],
            s_choice_target_ids = MultiTarget [[], [4, 5, 6]]\<rparr>])
   \<and> map length (b_tokens (projr (collate_fn False
         [\<lparr>s_token = [1, 2, 150000, 150004, 150004, 5, 6],
            s_position_id = [0, 1, 2, 2, 2, 2],
            s_attention_mask =
              [[1, 1, 1, 0, 0, 0], [1, 1, 1, 0, 0, 0], [1, 1, 1, 0, 0, 0],
               [1, 1, 1, 1, 0, 0], [1, 1, 1, 1, 1, 0], [1, 1, 1, 1, 1, 1]],
            s_choices = ChoiceNested [[], [5, 6, 7]],
            s_choice_target_ids = MultiTarget [[], [4, 5, 6]]\<rparr>]))) = [32]
   \<and> map length (b_position_ids (projr (collate_fn False
         [\<lparr>s_token = [1, 2, 150000, 150004, 150004, 5, 6],
            s_position_id = [0, 1, 2, 2, 2, 2],
            s_attention_mask =
              [[1, 1, 1, 0, 0, 0], [1, 1, 1, 0, 0, 0], [1, 1, 1, 0, 0, 0],
               [1, 1, 1, 1, 0, 0], [1, 1, 1, 1, 1, 0], [1, 1, 1, 1, 1, 1]],
            s_choices = ChoiceNested [[], [5, 6, 7]],
            s_choice_target_ids = MultiTarget [[], [4, 5, 6]]\<rparr>]))) = [32]
   \<and> map (\<lambda>m. (length m, map length m)) (b_attention_mask (projr (collate_fn False
         [\<lparr>s_token = [1, 2, 150000, 150004, 150004, 5, 6],
            s_position_id = [0, 1, 2, 2, 2, 2],
            s_attention_mask =
              [[1, 1, 1, 0, 0, 0], [1, 1, 1, 0, 0, 0], [1, 1, 1, 0, 0, 0],
               [1, 1, 1, 1, 0, 0], [1, 1, 1, 1, 1, 0], [1, 1, 1, 1, 1, 1]],
            s_choices = ChoiceNested [[], [5, 6, 7]],
            s_choice_target_ids = MultiTarget [[], [4, 5, 6]]\<rparr>])))
       = [(31, replicate 31 31)]"
  by (intro conjI; code_simp)

text \<open>
  Claim C7 says that no token of one choice sees a token of another choice. For the same
  item the tokens are \<open>[1, 2, MASK, sop, sop, 5, 6]\<close>: index 3 is the start-of-prediction
  token of the empty first choice and indices 4 to 6 hold the second choice. The
  triangular block of the second choice sits at rows and columns 3 to 5 of the 6 by 6
  matrix, so the entry at row 4 (second choice) and column 3 (first choice) is 1, and
  the last token of the second choice has no row at all.
\<close>

theorem empty_choice_breaks_block_diagonal:
  "build_multiple_choice_sample example_tokenizer [1, 2] [[], [5, 6, 7]] False False
     = Inr \<lparr>s_token = [1, 2, 150000, 150004, 150004, 5, 6],
            s_position_id = [0, 1, 2, 2, 2, 2],
            s_attention_mask =
              [[1, 1, 1, 0, 0, 0], [1, 1, 1, 0, 0, 0], [1, 1, 1, 0, 0, 0],
               [1, 1, 1, 1, 0, 0], [1, 1, 1, 1, 1, 0], [1, 1, 1, 1, 1, 1]],
            s_choices = ChoiceNested [[], [5, 6, 7]],
            s_choice_target_ids = MultiTarget [[], [4, 5, 6]]\<rparr>
   \<and> s_attention_mask (projr (build_multiple_choice_sample example_tokenizer [1, 2]
        [[], [5, 6, 7]] False False)) ! 4 ! 3 = 1
   \<and> length (s_attention_mask (projr (build_multiple_choice_sample example_tokenizer [1, 2]
        [[], [5, 6, 7]] False False))) = 6
   \<and> length (s_token (projr (build_multiple_choice_sample example_tokenizer [1, 2]
        [[], [5, 6, 7]] False False))) = 7"
  by (intro conjI; code_simp)

end
